theory Spec2Isabelle
  imports Complex_Main "HOL-Library.AList"
begin

section \<open>Data model of the game client (src/game.js)\<close>

text \<open>
  JavaScript numbers that the client computes with (coordinates, canvas and map sizes, the
  avatar size) are modelled as rationals: the only arithmetic is addition, subtraction,
  halving, negation, \<open>Math.min\<close> and \<open>Math.max\<close>, which are exact on the
  integers and half-integers the client handles. Counters are naturals.
\<close>

datatype direction = North | South | East | West

text \<open>A drawable handle: an \<open>Image\<close> is identified by the source it was loaded
  from; the placeholder map is an off-screen canvas.\<close>

datatype drawable = Image string | PlaceholderCanvas

text \<open>A player object as the server sends it. \<open>animationFrame\<close> may be absent.\<close>

record player =
  player_id :: string
  username :: string
  pos_x :: rat
  pos_y :: rat
  facing :: direction
  avatar :: string
  animationFrame :: "nat option"

text \<open>An avatar definition: \<open>frames[direction]\<close> is the list of frame sources.\<close>

record avatar_def =
  avatar_name :: string
  frames :: "direction \<Rightarrow> string list"

text \<open>
  A JavaScript array of image handles written by index (\<open>a[i] = img\<close>): holes are
  \<open>None\<close>, a write beyond the end extends the array.
\<close>

type_synonym frame_array = "drawable option list"

definition arr_get :: "frame_array \<Rightarrow> nat \<Rightarrow> drawable option" where
  "arr_get a i = (if i < length a then a ! i else None)"

definition arr_set :: "frame_array \<Rightarrow> nat \<Rightarrow> drawable \<Rightarrow> frame_array" where
  "arr_set a i v =
     (if i < length a then a[i := Some v]
      else a @ replicate (i - length a) None @ [Some v])"

text \<open>
  An entry of \<open>loadedAvatars\<close>: \<open>loadAvatarImages\<close> creates exactly the three
  properties \<open>north\<close>, \<open>south\<close> and \<open>east\<close>, and nothing ever adds another.
\<close>

record loaded_avatar =
  north :: frame_array
  south :: frame_array
  east :: frame_array

text \<open>\<open>avatar[direction]\<close> on a cache entry: \<open>undefined\<close> for \<open>'west'\<close>.\<close>

fun lookup_dir :: "loaded_avatar \<Rightarrow> direction \<Rightarrow> frame_array option" where
  "lookup_dir la North = Some (north la)"
| "lookup_dir la South = Some (south la)"
| "lookup_dir la East = Some (east la)"
| "lookup_dir la West = None"

text \<open>
  \<open>players\<close>, \<open>avatars\<close> and \<open>loadedAvatars\<close> are plain objects (\<open>{}\<close>, or the
  result of \<open>JSON.parse\<close>), so a read \<open>obj[key]\<close> that finds no own property goes on to
  \<open>Object.prototype\<close>. These are the names it finds there; each of them yields a
  function or an object, hence a truthy value, that has none of the properties
  \<open>north\<close>, \<open>south\<close>, \<open>east\<close>.
\<close>

definition object_prototype_names :: "string set" where
  "object_prototype_names =
     {''constructor'', ''toString'', ''toLocaleString'', ''valueOf'', ''hasOwnProperty'',
      ''isPrototypeOf'', ''propertyIsEnumerable'', ''__proto__'', ''__defineGetter__'',
      ''__defineSetter__'', ''__lookupGetter__'', ''__lookupSetter__''}"

text \<open>Whether \<open>obj[key]\<close> is truthy, for an object whose own properties are objects.\<close>

definition has_property :: "(string \<rightharpoonup> 'v) \<Rightarrow> string \<Rightarrow> bool" where
  "has_property own k = (case own k of Some v \<Rightarrow> True | None \<Rightarrow> k \<in> object_prototype_names)"

text \<open>The exception a handler can end in: a property read on \<open>undefined\<close>.\<close>

datatype js_error = TypeError

text \<open>
  Messages the client sends, and the inbound messages after \<open>JSON.parse\<close>. The
  \<open>playerId\<close> of a successful join result is \<open>None\<close> when the message has none (or
  \<open>null\<close>): the handler never looks before it stores it.
\<close>

datatype client_message = JoinGameReq string | Move string | Stop

datatype server_message =
    JoinGameOk "string option" "(string \<times> player) list" "(string \<times> avatar_def) list"
  | JoinGameFailed string
  | PlayerJoined player avatar_def
  | PlayersMoved "(string \<times> player) list"
  | PlayerLeft string
  | UnknownAction string

text \<open>Calls on the 2D context, in the order they are issued.\<close>

datatype draw_op =
    ClearRect rat rat rat rat
  | DrawImageSub drawable rat rat rat rat rat rat rat rat
  | Save
  | Restore
  | Scale rat rat
  | DrawImage drawable rat rat rat rat
  | FillStyle string
  | StrokeStyle string
  | LineWidth rat
  | Font string
  | TextAlign string
  | StrokeText string rat rat
  | FillText string rat rat

text \<open>A frame load that was started: avatar name, direction, index, source.\<close>

type_synonym load_request = "string \<times> direction \<times> nat \<times> string"

text \<open>
  The fields of \<open>GameClient\<close>. The objects \<open>players\<close> and \<open>avatars\<close> are
  iterated, so they are association lists in insertion order (the order in which the
  engine enumerates string keys; no property below depends on it); \<open>loadedAvatars\<close> and
  \<open>keysPressed\<close> are only looked up. \<open>ws_open\<close> is \<open>this.ws && this.ws.readyState === WebSocket.OPEN\<close>.
  The last four fields record the effects on the outside: messages handed to
  \<open>ws.send\<close>, the delays passed to \<open>setTimeout\<close>, the image loads started and the
  calls on the canvas context.
\<close>

record GameClient =
  canvas_width :: rat
  canvas_height :: rat
  worldMap :: "drawable option"
  mapWidth :: rat
  mapHeight :: rat
  myPlayerId :: "string option"
  players :: "(string \<times> player) list"
  avatars :: "(string \<times> avatar_def) list"
  viewport_x :: rat
  viewport_y :: rat
  avatarSize :: rat
  loadedAvatars :: "string \<rightharpoonup> loaded_avatar"
  ws_open :: bool
  reconnectAttempts :: nat
  maxReconnectAttempts :: nat
  keysPressed :: "string set"
  isMoving :: bool
  sent :: "client_message list"
  timers :: "nat list"
  loads :: "load_request list"
  canvas_ops :: "draw_op list"

text \<open>The state the constructor sets up before \<open>init\<close>, for a window of the given size.\<close>

definition new_GameClient :: "rat \<Rightarrow> rat \<Rightarrow> GameClient" where
  "new_GameClient innerWidth innerHeight =
     \<lparr> canvas_width = innerWidth, canvas_height = innerHeight,
       worldMap = None, mapWidth = 2048, mapHeight = 2048,
       myPlayerId = None, players = [], avatars = [],
       viewport_x = 0, viewport_y = 0, avatarSize = 64,
       loadedAvatars = Map.empty,
       ws_open = False, reconnectAttempts = 0, maxReconnectAttempts = 5,
       keysPressed = {}, isMoving = False,
       sent = [], timers = [], loads = [], canvas_ops = [] \<rparr>"

text \<open>
  What running a handler that may throw leaves behind: the state at the moment it returned
  or threw (every assignment made before a throw stays), and the exception that escaped it,
  if any.
\<close>

datatype outcome = Outcome (state_after: GameClient) (thrown: "js_error option")

section \<open>Viewport\<close>

text \<open>
  \<open>updateViewport\<close>: returns at once when \<open>myPlayerId\<close> is falsy (\<open>null\<close> or the
  empty string) or names no entry of \<open>players\<close>. (For an id that has no entry of its own
  but is one of \<open>object_prototype_names\<close> the code goes on with a player without
  coordinates and the viewport becomes \<open>NaN\<close>, a value the numbers used here do not have;
  nothing below speaks of the viewport in that case.)
\<close>

definition updateViewport :: "GameClient \<Rightarrow> GameClient" where
  "updateViewport s =
     (case myPlayerId s of
        None \<Rightarrow> s
      | Some i \<Rightarrow>
          if i = [] then s
          else (case map_of (players s) i of
                  None \<Rightarrow> s
                | Some myPlayer \<Rightarrow>
                    let centerX = canvas_width s / 2;
                        centerY = canvas_height s / 2;
                        vx = pos_x myPlayer - centerX;
                        vy = pos_y myPlayer - centerY
                    in s\<lparr> viewport_x := max 0 (min vx (mapWidth s - canvas_width s)),
                          viewport_y := max 0 (min vy (mapHeight s - canvas_height s)) \<rparr>))"

section \<open>Rendering\<close>

text \<open>
  The frame \<open>drawPlayer\<close> picks from the cache entry of the player's avatar (lines
  336-347): the \<open>east\<close> array for a player facing west, the array of the facing
  direction otherwise, at \<open>player.animationFrame || 0\<close>. A hole or an index beyond
  the array gives no frame.
\<close>

definition frame_index :: "player \<Rightarrow> nat" where
  "frame_index p = (case animationFrame p of None \<Rightarrow> 0 | Some k \<Rightarrow> k)"

definition select_frame :: "loaded_avatar \<Rightarrow> player \<Rightarrow> drawable option" where
  "select_frame av p =
     (let direction = facing p;
          frameIndex = frame_index p
      in if direction = West then arr_get (east av) frameIndex
         else (case lookup_dir av direction of
                 None \<Rightarrow> None
               | Some a \<Rightarrow> arr_get a frameIndex))"

text \<open>
  \<open>drawPlayer\<close> returns the context calls it issues (\<open>Inr\<close>; the empty list is an early
  \<open>return\<close>), or the exception it throws before it has issued any (\<open>Inl\<close>). Both guards
  of line 334 are reads through the prototype chain. Past them, \<open>avatar\<close> is either the
  own cache entry or a member of \<open>Object.prototype\<close>; on the latter, \<open>avatar.east\<close> is
  \<open>undefined\<close>, so indexing it throws for a player facing west, while
  \<open>avatar[direction]\<close> is \<open>undefined\<close> and gives no frame for the other directions.
\<close>

definition drawPlayer :: "GameClient \<Rightarrow> player \<Rightarrow> js_error + draw_op list" where
  "drawPlayer s p =
     (if \<not> has_property (map_of (avatars s)) (avatar p) \<or>
         \<not> has_property (loadedAvatars s) (avatar p)
      then Inr []
      else
     (case loadedAvatars s (avatar p) of
        None \<Rightarrow> if facing p = West then Inl TypeError else Inr []
      | Some av \<Rightarrow>
          (case select_frame av p of
             None \<Rightarrow> Inr []
           | Some img \<Rightarrow>
               let screenX = pos_x p - viewport_x s;
                   screenY = pos_y p - viewport_y s
               in if screenX < - avatarSize s \<or> screenX > canvas_width s + avatarSize s \<or>
                     screenY < - avatarSize s \<or> screenY > canvas_height s + avatarSize s
                  then Inr []
                  else Inr
                   ([Save] @
                    (if facing p = West
                     then [Scale (- 1) 1,
                           DrawImage img (- screenX - avatarSize s / 2)
                             (screenY - avatarSize s / 2) (avatarSize s) (avatarSize s)]
                     else [DrawImage img (screenX - avatarSize s / 2)
                             (screenY - avatarSize s / 2) (avatarSize s) (avatarSize s)]) @
                    [Restore,
                     FillStyle ''#ffffff'', StrokeStyle ''#000000'', LineWidth 2,
                     Font ''14px Arial'', TextAlign ''center'',
                     StrokeText (username p) screenX (screenY - avatarSize s / 2 - 5),
                     FillText (username p) screenX (screenY - avatarSize s / 2 - 5)]))))"

text \<open>
  The \<open>forEach\<close> of \<open>draw\<close> over the players: the calls issued, and the exception that
  ended it early, if one did.
\<close>

fun drawPlayers :: "GameClient \<Rightarrow> player list \<Rightarrow> draw_op list \<times> js_error option" where
  "drawPlayers s [] = ([], None)"
| "drawPlayers s (p # ps) =
     (case drawPlayer s p of
        Inl e \<Rightarrow> ([], Some e)
      | Inr ops \<Rightarrow> (case drawPlayers s ps of (ops', r) \<Rightarrow> (ops @ ops', r)))"

definition draw :: "GameClient \<Rightarrow> outcome" where
  "draw s =
     (case worldMap s of
        None \<Rightarrow> Outcome s None
      | Some wm \<Rightarrow>
          (case drawPlayers s (map snd (players s)) of
             (ops, r) \<Rightarrow>
               Outcome
                 (s\<lparr> canvas_ops := canvas_ops s @
                      [ClearRect 0 0 (canvas_width s) (canvas_height s),
                       DrawImageSub wm (viewport_x s) (viewport_y s)
                         (canvas_width s) (canvas_height s)
                         0 0 (canvas_width s) (canvas_height s)] @ ops \<rparr>)
                 r))"

text \<open>
  What a sequence of context calls puts on the screen, following the Canvas 2D API: the
  current transformation (here only scalings occur, so a pair of factors) is pushed by
  \<open>save\<close>, popped by \<open>restore\<close> and multiplied by \<open>scale\<close>;
  \<open>drawImage(img, x, y, w, h)\<close> maps its destination rectangle through it. A blit is
  the image, the left and top edge, the width and height of the rectangle in device
  coordinates, and whether the image appears mirrored horizontally (a negative horizontal
  factor).
\<close>

type_synonym blit = "drawable \<times> rat \<times> rat \<times> rat \<times> rat \<times> bool"

fun blits :: "rat \<times> rat \<Rightarrow> (rat \<times> rat) list \<Rightarrow> draw_op list \<Rightarrow> blit list" where
  "blits t st [] = []"
| "blits t st (Save # ops) = blits t (t # st) ops"
| "blits t st (Restore # ops) =
     (case st of [] \<Rightarrow> blits t st ops | t' # st' \<Rightarrow> blits t' st' ops)"
| "blits (a, d) st (Scale sx sy # ops) = blits (a * sx, d * sy) st ops"
| "blits (a, d) st (DrawImage img x y w h # ops) =
     (img, min (a * x) (a * (x + w)), min (d * y) (d * (y + h)), \<bar>a * w\<bar>, \<bar>d * h\<bar>, a < 0)
     # blits (a, d) st ops"
| "blits t st (_ # ops) = blits t st ops"

section \<open>Connection manager\<close>

text \<open>\<open>sendMessage\<close>: hands the message to \<open>ws.send\<close> only while the socket is
  open; otherwise it logs an error and drops the message.\<close>

definition sendMessage :: "client_message \<Rightarrow> GameClient \<Rightarrow> GameClient" where
  "sendMessage m s = (if ws_open s then s\<lparr> sent := sent s @ [m] \<rparr> else s)"

definition joinGame :: "GameClient \<Rightarrow> GameClient" where
  "joinGame s = sendMessage (JoinGameReq ''Tim'') s"

text \<open>\<open>attemptReconnect\<close>: increments the counter, then passes
  \<open>2000 * this.reconnectAttempts\<close> to \<open>setTimeout\<close>; beyond the bound it only logs.\<close>

definition attemptReconnect :: "GameClient \<Rightarrow> GameClient" where
  "attemptReconnect s =
     (if reconnectAttempts s < maxReconnectAttempts s
      then let s1 = s\<lparr> reconnectAttempts := reconnectAttempts s + 1 \<rparr>
           in s1\<lparr> timers := timers s1 @ [2000 * reconnectAttempts s1] \<rparr>
      else s)"

text \<open>\<open>connectToServer\<close>: the flag says whether \<open>new WebSocket\<close> throws, which the
  \<open>catch\<close> turns into \<open>attemptReconnect\<close>; otherwise \<open>this.ws\<close> is a fresh socket
  that is still connecting.\<close>

definition connectToServer :: "bool \<Rightarrow> GameClient \<Rightarrow> GameClient" where
  "connectToServer ctor_throws s =
     (if ctor_throws then attemptReconnect s else s\<lparr> ws_open := False \<rparr>)"

definition ws_onopen :: "GameClient \<Rightarrow> GameClient" where
  "ws_onopen s = joinGame (s\<lparr> ws_open := True, reconnectAttempts := 0 \<rparr>)"

definition ws_onclose :: "GameClient \<Rightarrow> GameClient" where
  "ws_onclose s = attemptReconnect (s\<lparr> ws_open := False \<rparr>)"

section \<open>Input handling\<close>

definition sendMovementCommand :: "GameClient \<Rightarrow> GameClient" where
  "sendMovementCommand s =
     (let directions =
            (if ''ArrowUp'' \<in> keysPressed s then [''up''] else []) @
            (if ''ArrowDown'' \<in> keysPressed s then [''down''] else []) @
            (if ''ArrowLeft'' \<in> keysPressed s then [''left''] else []) @
            (if ''ArrowRight'' \<in> keysPressed s then [''right''] else [])
      in case directions of
           [] \<Rightarrow> if isMoving s then (sendMessage Stop s)\<lparr> isMoving := False \<rparr> else s
         | d # _ \<Rightarrow> (sendMessage (Move d) s)\<lparr> isMoving := True \<rparr>)"

definition handleKeyDown :: "string \<Rightarrow> GameClient \<Rightarrow> GameClient" where
  "handleKeyDown code s = sendMovementCommand (s\<lparr> keysPressed := insert code (keysPressed s) \<rparr>)"

definition handleKeyUp :: "string \<Rightarrow> GameClient \<Rightarrow> GameClient" where
  "handleKeyUp code s = sendMovementCommand (s\<lparr> keysPressed := keysPressed s - {code} \<rparr>)"

section \<open>Asset cache\<close>

text \<open>The loads one avatar starts: for \<open>north\<close>, \<open>south\<close>, \<open>east\<close> in this order,
  every frame source with its index.\<close>

definition load_frames :: "string \<Rightarrow> avatar_def \<Rightarrow> load_request list" where
  "load_frames nm av =
     concat (map (\<lambda>d. map (\<lambda>(i, src). (nm, d, i, src)) (enumerate 0 (frames av d)))
               [North, South, East])"

text \<open>
  The body of the \<open>forEach\<close> over \<open>Object.keys(this.avatars)\<close>. The guard
  \<open>!this.loadedAvatars[avatarName]\<close> skips a name with a cache entry (an object, hence
  truthy, from the moment it is created) and equally a name that \<open>Object.prototype\<close>
  answers. The key comes from \<open>avatars\<close> itself, so the lookup of the definition
  succeeds.
\<close>

definition loadAvatarImages_one :: "string \<Rightarrow> GameClient \<Rightarrow> GameClient" where
  "loadAvatarImages_one nm s =
     (if has_property (loadedAvatars s) nm then s
      else
          (case map_of (avatars s) nm of
             None \<Rightarrow> s
           | Some av \<Rightarrow>
               s\<lparr> loadedAvatars := (loadedAvatars s)(nm \<mapsto> \<lparr> north = [], south = [], east = [] \<rparr>),
                  loads := loads s @ load_frames nm av \<rparr>))"

definition loadAvatarImages :: "GameClient \<Rightarrow> GameClient" where
  "loadAvatarImages s = fold loadAvatarImages_one (map fst (avatars s)) s"

text \<open>
  \<open>img.onload\<close> of the load started for \<open>(nm, d, i)\<close>: writes the handle into its slot
  and redraws. The assignment reads \<open>this.loadedAvatars[nm][d]\<close> first; where that is
  \<open>undefined\<close> the callback throws before it changes anything.
\<close>

definition img_onload :: "string \<Rightarrow> direction \<Rightarrow> nat \<Rightarrow> drawable \<Rightarrow> GameClient \<Rightarrow> outcome" where
  "img_onload nm d i img s =
     (case loadedAvatars s nm of
        None \<Rightarrow> Outcome s (Some TypeError)
      | Some la \<Rightarrow>
          (case d of
             North \<Rightarrow> draw (s\<lparr> loadedAvatars := (loadedAvatars s)(nm \<mapsto> la\<lparr> north := arr_set (north la) i img \<rparr>) \<rparr>)
           | South \<Rightarrow> draw (s\<lparr> loadedAvatars := (loadedAvatars s)(nm \<mapsto> la\<lparr> south := arr_set (south la) i img \<rparr>) \<rparr>)
           | East \<Rightarrow> draw (s\<lparr> loadedAvatars := (loadedAvatars s)(nm \<mapsto> la\<lparr> east := arr_set (east la) i img \<rparr>) \<rparr>)
           | West \<Rightarrow> Outcome s (Some TypeError)))"

section \<open>Protocol handler\<close>

text \<open>\<open>Object.assign(target, source)\<close>: every own property of the source, in order,
  assigned to the target.\<close>

definition object_assign :: "(string \<times> 'v) list \<Rightarrow> (string \<times> 'v) list \<Rightarrow> (string \<times> 'v) list" where
  "object_assign target source = fold (\<lambda>(k, v). AList.update k v) source target"

text \<open>
  \<open>handleServerMessage\<close>: every branch that changes something ends in \<open>this.draw()\<close>,
  the only statement of the handler that can throw.
\<close>

fun handleServerMessage :: "server_message \<Rightarrow> GameClient \<Rightarrow> outcome" where
  "handleServerMessage (JoinGameOk playerId ps avs) s =
     draw (updateViewport (loadAvatarImages
       (s\<lparr> myPlayerId := playerId, players := ps, avatars := avs \<rparr>)))"
| "handleServerMessage (JoinGameFailed err) s = Outcome s None"
| "handleServerMessage (PlayerJoined p a) s =
     draw (loadAvatarImages
       (s\<lparr> players := AList.update (player_id p) p (players s),
           avatars := AList.update (avatar_name a) a (avatars s) \<rparr>))"
| "handleServerMessage (PlayersMoved ps) s =
     draw (updateViewport (s\<lparr> players := object_assign (players s) ps \<rparr>))"
| "handleServerMessage (PlayerLeft playerId) s =
     draw (s\<lparr> players := AList.delete playerId (players s) \<rparr>)"
| "handleServerMessage (UnknownAction a) s = Outcome s None"

section \<open>The event loop\<close>

text \<open>
  Everything the client does after construction is a reaction to one of these events, each
  run to completion. \<open>WsMessage None\<close> is a payload on which \<open>JSON.parse\<close> throws;
  \<open>ReconnectTimer\<close> is a timer set by \<open>attemptReconnect\<close> firing. An exception that
  escapes a handler is caught and logged by \<open>onmessage\<close>, or reported by the browser; either
  way the client goes on from the state the handler left.
\<close>

datatype event =
    KeyDown string
  | KeyUp string
  | WsOpen
  | WsClose
  | WsError
  | WsMessage "server_message option"
  | ReconnectTimer bool
  | FrameLoaded string direction nat string
  | Resize rat rat
  | WorldMapLoaded
  | WorldMapError

fun step :: "event \<Rightarrow> GameClient \<Rightarrow> GameClient" where
  "step (KeyDown code) s = handleKeyDown code s"
| "step (KeyUp code) s = handleKeyUp code s"
| "step WsOpen s = ws_onopen s"
| "step WsClose s = ws_onclose s"
| "step WsError s = s"
| "step (WsMessage None) s = s"
| "step (WsMessage (Some m)) s = state_after (handleServerMessage m s)"
| "step (ReconnectTimer ctor_throws) s = connectToServer ctor_throws s"
| "step (FrameLoaded nm d i src) s = state_after (img_onload nm d i (Image src) s)"
| "step (Resize w h) s =
     state_after (draw (updateViewport (s\<lparr> canvas_width := w, canvas_height := h \<rparr>)))"
| "step WorldMapLoaded s = state_after (draw (s\<lparr> worldMap := Some (Image ''world.jpg'') \<rparr>))"
| "step WorldMapError s = state_after (draw (s\<lparr> worldMap := Some PlaceholderCanvas \<rparr>))"

definition run :: "event list \<Rightarrow> GameClient \<Rightarrow> GameClient" where
  "run evs s = fold step evs s"

text \<open>Loads that complete, in the given order: the \<open>onload\<close> callback of each.\<close>

definition finish_loads :: "load_request list \<Rightarrow> GameClient \<Rightarrow> GameClient" where
  "finish_loads cs s =
     fold (\<lambda>(nm, d, i, src) s. state_after (img_onload nm d i (Image src) s)) cs s"

section \<open>Vocabulary of the properties\<close>

subsection \<open>The movement protocol as the specification words it\<close>

definition arrow_keys :: "string set" where
  "arrow_keys = {''ArrowUp'', ''ArrowDown'', ''ArrowLeft'', ''ArrowRight''}"

text \<open>The direction keys currently held.\<close>

definition held :: "string set \<Rightarrow> string set" where
  "held K = K \<inter> arrow_keys"

fun is_key_event :: "event \<Rightarrow> bool" where
  "is_key_event (KeyDown code) = True"
| "is_key_event (KeyUp code) = True"
| "is_key_event _ = False"

fun keys_after :: "event \<Rightarrow> string set \<Rightarrow> string set" where
  "keys_after (KeyDown code) K = insert code K"
| "keys_after (KeyUp code) K = K - {code}"
| "keys_after _ K = K"

text \<open>The number of transitions of the held direction keys from non-empty to empty.\<close>

fun stop_transitions :: "string set \<Rightarrow> event list \<Rightarrow> nat" where
  "stop_transitions K [] = 0"
| "stop_transitions K (e # es) =
     (if held K \<noteq> {} \<and> held (keys_after e K) = {} then 1 else 0)
     + stop_transitions (keys_after e K) es"

text \<open>First-found-wins over up, down, left, right.\<close>

definition first_direction :: "string set \<Rightarrow> string" where
  "first_direction K =
     (if ''ArrowUp'' \<in> K then ''up'' else if ''ArrowDown'' \<in> K then ''down''
      else if ''ArrowLeft'' \<in> K then ''left'' else ''right'')"

text \<open>The commands of section 6 of the specification: a move after every key event that
  leaves a direction key held, a stop on the transition to none held.\<close>

fun spec_commands :: "string set \<Rightarrow> event list \<Rightarrow> client_message list" where
  "spec_commands K [] = []"
| "spec_commands K (e # es) =
     (if held (keys_after e K) \<noteq> {} then [Move (first_direction (keys_after e K))]
      else if held K \<noteq> {} then [Stop] else [])
     @ spec_commands (keys_after e K) es"

subsection \<open>Connection failures\<close>

text \<open>Failures of the connection: a socket that closes, or a constructor that throws.\<close>

fun is_failure :: "event \<Rightarrow> bool" where
  "is_failure WsClose = True"
| "is_failure (ReconnectTimer ctor_throws) = ctor_throws"
| "is_failure _ = False"

definition failures :: "event list \<Rightarrow> nat" where
  "failures evs = length (filter is_failure evs)"

subsection \<open>The asset cache covers every known avatar\<close>

definition all_cached :: "GameClient \<Rightarrow> bool" where
  "all_cached s = (\<forall>nm \<in> fst ` set (avatars s). has_property (loadedAvatars s) nm)"

subsection \<open>Join results that carry an id\<close>

text \<open>Every event but a successful join result without a \<open>playerId\<close>.\<close>

fun carries_playerId :: "event \<Rightarrow> bool" where
  "carries_playerId (WsMessage (Some (JoinGameOk None ps avs))) = False"
| "carries_playerId _ = True"


section \<open>A concrete session used to exercise the theorems\<close>

definition player_p1 :: player where
  "player_p1 = \<lparr> player_id = ''p1'', username = ''Tim'', pos_x = 500, pos_y = 500,
                 facing = West, avatar = ''knight'', animationFrame = Some 1 \<rparr>"

definition player_p2 :: player where
  "player_p2 = \<lparr> player_id = ''p2'', username = ''Ann'', pos_x = 100, pos_y = 100,
                 facing = South, avatar = ''knight'', animationFrame = None \<rparr>"

definition avatar_knight :: avatar_def where
  "avatar_knight = \<lparr> avatar_name = ''knight'',
       frames = (\<lambda>d. case d of North \<Rightarrow> [''n0''] | South \<Rightarrow> [''s0'']
                           | East \<Rightarrow> [''e0'', ''e1''] | West \<Rightarrow> []) \<rparr>"

text \<open>A client in an 800 x 600 window that knows itself as \<open>p1\<close>.\<close>

definition client_800x600 :: GameClient where
  "client_800x600 =
     (new_GameClient 800 600)\<lparr> myPlayerId := Some ''p1'',
        players := [(''p1'', player_p1), (''p2'', player_p2)] \<rparr>"

text \<open>The same client after a successful join: the viewport centred on \<open>p1\<close>, the
  knight known and partly loaded (\<open>east[0]\<close> and the \<open>north\<close> frame still in flight).\<close>

definition client_joined :: GameClient where
  "client_joined =
     client_800x600\<lparr> avatars := [(''knight'', avatar_knight)],
        viewport_x := 100, viewport_y := 200,
        loadedAvatars := [''knight'' \<mapsto>
          \<lparr> north = [], south = [Some (Image ''s0'')], east = [None, Some (Image ''e1'')] \<rparr>] \<rparr>"

text \<open>A client that has just learnt of the knight and has requested nothing yet.\<close>

definition client_unloaded :: GameClient where
  "client_unloaded = client_800x600\<lparr> avatars := [(''knight'', avatar_knight)] \<rparr>"

text \<open>A second definition that arrives under the name of the knight, and its bearer.\<close>

definition avatar_knight_v2 :: avatar_def where
  "avatar_knight_v2 = \<lparr> avatar_name = ''knight'',
       frames = (\<lambda>d. case d of North \<Rightarrow> [''N0''] | South \<Rightarrow> [''S0'']
                           | East \<Rightarrow> [''E0''] | West \<Rightarrow> []) \<rparr>"

definition player_p3 :: player where
  "player_p3 = \<lparr> player_id = ''p3'', username = ''Bob'', pos_x = 700, pos_y = 400,
                 facing = North, avatar = ''knight'', animationFrame = Some 0 \<rparr>"

definition player_p2_moved :: player where
  "player_p2_moved = player_p2\<lparr> pos_x := 120, facing := East \<rparr>"

definition player_at_edge :: player where
  "player_at_edge = player_p2\<lparr> pos_x := 36, pos_y := 500 \<rparr>"

definition player_beyond_edge :: player where
  "player_beyond_edge = player_p2\<lparr> pos_x := 35, pos_y := 500 \<rparr>"

text \<open>The client after a second successful join whose \<open>avatars\<close> has no knight.\<close>

definition client_rejoined :: GameClient where
  "client_rejoined =
     state_after (handleServerMessage
       (JoinGameOk (Some ''p1'') [(''p1'', player_p1), (''p2'', player_p2)] []) client_joined)"

text \<open>An avatar named like a member of \<open>Object.prototype\<close>, a player who wears it facing
  west, and a fresh client that shows the world map and has been told of both.\<close>

definition avatar_constructor :: avatar_def where
  "avatar_constructor = \<lparr> avatar_name = ''constructor'',
       frames = (\<lambda>d. case d of North \<Rightarrow> [''n0''] | South \<Rightarrow> [''s0'']
                           | East \<Rightarrow> [''e0'', ''e1''] | West \<Rightarrow> []) \<rparr>"

definition player_p4 :: player where
  "player_p4 = \<lparr> player_id = ''p4'', username = ''Eve'', pos_x = 500, pos_y = 400,
                 facing = West, avatar = ''constructor'', animationFrame = Some 0 \<rparr>"

definition client_met_constructor :: GameClient where
  "client_met_constructor =
     run [WorldMapLoaded, WsMessage (Some (PlayerJoined player_p4 avatar_constructor))]
       (new_GameClient 800 600)"

text \<open>Five connections in a row that close without opening, each followed by its timer.\<close>

definition five_failures :: "event list" where
  "five_failures =
     [WsClose, ReconnectTimer False, WsClose, ReconnectTimer False, WsClose,
      ReconnectTimer False, WsClose, ReconnectTimer False, WsClose, ReconnectTimer False]"

text \<open>Two arrow keys and an unrelated key, pressed and released.\<close>

definition press_and_release :: "event list" where
  "press_and_release =
     [KeyDown ''ArrowUp'', KeyDown ''ArrowLeft'', KeyUp ''ArrowUp'', KeyDown ''KeyA'',
      KeyUp ''ArrowLeft'', KeyUp ''KeyA'']"


section \<open>What each operation leaves alone\<close>

lemma draw_fields [simp]:
  "canvas_width (state_after (draw s)) = canvas_width s" "canvas_height (state_after (draw s)) = canvas_height s"
  "worldMap (state_after (draw s)) = worldMap s" "mapWidth (state_after (draw s)) = mapWidth s"
  "mapHeight (state_after (draw s)) = mapHeight s" "myPlayerId (state_after (draw s)) = myPlayerId s"
  "players (state_after (draw s)) = players s" "avatars (state_after (draw s)) = avatars s"
  "viewport_x (state_after (draw s)) = viewport_x s" "viewport_y (state_after (draw s)) = viewport_y s"
  "avatarSize (state_after (draw s)) = avatarSize s" "loadedAvatars (state_after (draw s)) = loadedAvatars s"
  "ws_open (state_after (draw s)) = ws_open s" "reconnectAttempts (state_after (draw s)) = reconnectAttempts s"
  "maxReconnectAttempts (state_after (draw s)) = maxReconnectAttempts s"
  "keysPressed (state_after (draw s)) = keysPressed s" "isMoving (state_after (draw s)) = isMoving s"
  "sent (state_after (draw s)) = sent s" "timers (state_after (draw s)) = timers s" "loads (state_after (draw s)) = loads s"
  by (simp_all add: draw_def split: option.splits prod.splits)

lemma updateViewport_fields [simp]:
  "canvas_width (updateViewport s) = canvas_width s"
  "canvas_height (updateViewport s) = canvas_height s"
  "worldMap (updateViewport s) = worldMap s" "mapWidth (updateViewport s) = mapWidth s"
  "mapHeight (updateViewport s) = mapHeight s" "myPlayerId (updateViewport s) = myPlayerId s"
  "players (updateViewport s) = players s" "avatars (updateViewport s) = avatars s"
  "avatarSize (updateViewport s) = avatarSize s"
  "loadedAvatars (updateViewport s) = loadedAvatars s"
  "ws_open (updateViewport s) = ws_open s"
  "reconnectAttempts (updateViewport s) = reconnectAttempts s"
  "maxReconnectAttempts (updateViewport s) = maxReconnectAttempts s"
  "keysPressed (updateViewport s) = keysPressed s" "isMoving (updateViewport s) = isMoving s"
  "sent (updateViewport s) = sent s" "timers (updateViewport s) = timers s"
  "loads (updateViewport s) = loads s" "canvas_ops (updateViewport s) = canvas_ops s"
  by (simp_all add: updateViewport_def Let_def split: option.splits)

lemma loadAvatarImages_one_frame:
  "loadAvatarImages_one nm s =
     s\<lparr> loadedAvatars := loadedAvatars (loadAvatarImages_one nm s),
        loads := loads (loadAvatarImages_one nm s) \<rparr>"
  by (simp add: loadAvatarImages_one_def split: option.splits)

lemma fold_loadAvatarImages_one_frame:
  "fold loadAvatarImages_one nms s =
     s\<lparr> loadedAvatars := loadedAvatars (fold loadAvatarImages_one nms s),
        loads := loads (fold loadAvatarImages_one nms s) \<rparr>"
proof (induction nms arbitrary: s)
  case Nil
  show ?case by simp
next
  case (Cons nm nms)
  let ?s' = "loadAvatarImages_one nm s"
  have "fold loadAvatarImages_one nms ?s' =
          ?s'\<lparr> loadedAvatars := loadedAvatars (fold loadAvatarImages_one nms ?s'),
               loads := loads (fold loadAvatarImages_one nms ?s') \<rparr>"
    by (rule Cons.IH)
  also have "\<dots> = s\<lparr> loadedAvatars := loadedAvatars (fold loadAvatarImages_one nms ?s'),
                     loads := loads (fold loadAvatarImages_one nms ?s') \<rparr>"
    by (subst loadAvatarImages_one_frame) simp
  finally show ?case by simp
qed

lemma loadAvatarImages_fields [simp]:
  "canvas_width (loadAvatarImages s) = canvas_width s"
  "canvas_height (loadAvatarImages s) = canvas_height s"
  "worldMap (loadAvatarImages s) = worldMap s" "mapWidth (loadAvatarImages s) = mapWidth s"
  "mapHeight (loadAvatarImages s) = mapHeight s"
  "myPlayerId (loadAvatarImages s) = myPlayerId s"
  "players (loadAvatarImages s) = players s" "avatars (loadAvatarImages s) = avatars s"
  "viewport_x (loadAvatarImages s) = viewport_x s"
  "viewport_y (loadAvatarImages s) = viewport_y s"
  "avatarSize (loadAvatarImages s) = avatarSize s"
  "ws_open (loadAvatarImages s) = ws_open s"
  "reconnectAttempts (loadAvatarImages s) = reconnectAttempts s"
  "maxReconnectAttempts (loadAvatarImages s) = maxReconnectAttempts s"
  "keysPressed (loadAvatarImages s) = keysPressed s"
  "isMoving (loadAvatarImages s) = isMoving s"
  "sent (loadAvatarImages s) = sent s" "timers (loadAvatarImages s) = timers s"
  "canvas_ops (loadAvatarImages s) = canvas_ops s"
  unfolding loadAvatarImages_def
  by (subst fold_loadAvatarImages_one_frame, simp)+

lemma sendMessage_fields [simp]:
  "canvas_width (sendMessage m s) = canvas_width s"
  "canvas_height (sendMessage m s) = canvas_height s"
  "worldMap (sendMessage m s) = worldMap s" "mapWidth (sendMessage m s) = mapWidth s"
  "mapHeight (sendMessage m s) = mapHeight s" "myPlayerId (sendMessage m s) = myPlayerId s"
  "players (sendMessage m s) = players s" "avatars (sendMessage m s) = avatars s"
  "viewport_x (sendMessage m s) = viewport_x s" "viewport_y (sendMessage m s) = viewport_y s"
  "avatarSize (sendMessage m s) = avatarSize s"
  "loadedAvatars (sendMessage m s) = loadedAvatars s"
  "ws_open (sendMessage m s) = ws_open s"
  "reconnectAttempts (sendMessage m s) = reconnectAttempts s"
  "maxReconnectAttempts (sendMessage m s) = maxReconnectAttempts s"
  "keysPressed (sendMessage m s) = keysPressed s" "isMoving (sendMessage m s) = isMoving s"
  "timers (sendMessage m s) = timers s" "loads (sendMessage m s) = loads s"
  "canvas_ops (sendMessage m s) = canvas_ops s"
  by (simp_all add: sendMessage_def)

lemma img_onload_fields [simp]:
  "myPlayerId (state_after (img_onload nm d i img s)) = myPlayerId s"
  "ws_open (state_after (img_onload nm d i img s)) = ws_open s"
  "keysPressed (state_after (img_onload nm d i img s)) = keysPressed s"
  "isMoving (state_after (img_onload nm d i img s)) = isMoving s"
  "sent (state_after (img_onload nm d i img s)) = sent s"
  "players (state_after (img_onload nm d i img s)) = players s"
  "avatars (state_after (img_onload nm d i img s)) = avatars s"
  "reconnectAttempts (state_after (img_onload nm d i img s)) = reconnectAttempts s"
  "maxReconnectAttempts (state_after (img_onload nm d i img s)) = maxReconnectAttempts s"
  "timers (state_after (img_onload nm d i img s)) = timers s"
  "loads (state_after (img_onload nm d i img s)) = loads s"
  by (simp_all add: img_onload_def split: option.splits direction.splits)

lemma sendMovementCommand_fields [simp]:
  "canvas_width (sendMovementCommand s) = canvas_width s"
  "myPlayerId (sendMovementCommand s) = myPlayerId s"
  "players (sendMovementCommand s) = players s"
  "avatars (sendMovementCommand s) = avatars s"
  "loadedAvatars (sendMovementCommand s) = loadedAvatars s"
  "ws_open (sendMovementCommand s) = ws_open s"
  "keysPressed (sendMovementCommand s) = keysPressed s"
  "reconnectAttempts (sendMovementCommand s) = reconnectAttempts s"
  "maxReconnectAttempts (sendMovementCommand s) = maxReconnectAttempts s"
  "timers (sendMovementCommand s) = timers s"
  "loads (sendMovementCommand s) = loads s"
  by (simp_all add: sendMovementCommand_def Let_def split: list.splits)

lemma attemptReconnect_fields [simp]:
  "myPlayerId (attemptReconnect s) = myPlayerId s"
  "keysPressed (attemptReconnect s) = keysPressed s"
  "isMoving (attemptReconnect s) = isMoving s"
  "sent (attemptReconnect s) = sent s"
  "players (attemptReconnect s) = players s"
  "avatars (attemptReconnect s) = avatars s"
  "loadedAvatars (attemptReconnect s) = loadedAvatars s"
  "ws_open (attemptReconnect s) = ws_open s"
  "maxReconnectAttempts (attemptReconnect s) = maxReconnectAttempts s"
  "loads (attemptReconnect s) = loads s"
  by (simp_all add: attemptReconnect_def Let_def)

lemma handleServerMessage_input [simp]:
  "keysPressed (state_after (handleServerMessage m s)) = keysPressed s"
  "isMoving (state_after (handleServerMessage m s)) = isMoving s"
  "ws_open (state_after (handleServerMessage m s)) = ws_open s"
  "sent (state_after (handleServerMessage m s)) = sent s"
  by (cases m; simp)+

lemma handleServerMessage_conn [simp]:
  "reconnectAttempts (state_after (handleServerMessage m s)) = reconnectAttempts s"
  "maxReconnectAttempts (state_after (handleServerMessage m s)) = maxReconnectAttempts s"
  "timers (state_after (handleServerMessage m s)) = timers s"
  by (cases m; simp)+

section \<open>Reconnection\<close>

lemma step_WsMessage:
  "step (WsMessage x) s =
     (case x of None \<Rightarrow> s | Some m \<Rightarrow> state_after (handleServerMessage m s))"
  by (cases x) simp_all

lemma step_maxReconnectAttempts [simp]:
  "maxReconnectAttempts (step e s) = maxReconnectAttempts s"
  by (cases e)
     (simp_all add: handleKeyDown_def handleKeyUp_def ws_onopen_def ws_onclose_def
        joinGame_def connectToServer_def step_WsMessage split: option.splits)

lemma step_other_conn:
  assumes "\<not> is_failure e" and "e \<noteq> WsOpen"
  shows "reconnectAttempts (step e s) = reconnectAttempts s \<and> timers (step e s) = timers s"
  using assms
  by (cases e)
     (simp_all add: handleKeyDown_def handleKeyUp_def connectToServer_def step_WsMessage
        split: option.splits)

lemma step_failure_conn:
  assumes "is_failure e"
  shows "reconnectAttempts (step e s) =
           (if reconnectAttempts s < maxReconnectAttempts s then Suc (reconnectAttempts s)
            else reconnectAttempts s)
       \<and> timers (step e s) =
           (if reconnectAttempts s < maxReconnectAttempts s
            then timers s @ [2000 * Suc (reconnectAttempts s)] else timers s)"
  using assms
  by (cases e)
     (simp_all add: ws_onclose_def connectToServer_def attemptReconnect_def Let_def)

lemma run_no_open:
  assumes "WsOpen \<notin> set evs" and "reconnectAttempts s \<le> maxReconnectAttempts s"
  shows "reconnectAttempts (run evs s) =
           min (reconnectAttempts s + failures evs) (maxReconnectAttempts s)
       \<and> timers (run evs s) =
           timers s @ map (\<lambda>n. 2000 * n)
             [Suc (reconnectAttempts s) ..<
              Suc (min (reconnectAttempts s + failures evs) (maxReconnectAttempts s))]
       \<and> maxReconnectAttempts (run evs s) = maxReconnectAttempts s"
  using assms
proof (induction evs arbitrary: s)
  case Nil
  then show ?case by (simp add: run_def failures_def)
next
  case (Cons e evs)
  have r: "run (e # evs) s = run evs (step e s)" by (simp add: run_def)
  show ?case
  proof (cases "is_failure e")
    case False
    with Cons.prems have o: "reconnectAttempts (step e s) = reconnectAttempts s"
      "timers (step e s) = timers s"
      using step_other_conn [of e s] by auto
    have f: "failures (e # evs) = failures evs" using False by (simp add: failures_def)
    from Cons.prems have "WsOpen \<notin> set evs"
      "reconnectAttempts (step e s) \<le> maxReconnectAttempts (step e s)" by (simp_all add: o)
    from Cons.IH [OF this] show ?thesis by (simp add: r o f)
  next
    case True
    note st = step_failure_conn [OF True, of s]
    have f: "failures (e # evs) = Suc (failures evs)" using True by (simp add: failures_def)
    from Cons.prems st have "WsOpen \<notin> set evs"
      "reconnectAttempts (step e s) \<le> maxReconnectAttempts (step e s)" by auto
    note ih = Cons.IH [OF this]
    show ?thesis
    proof (cases "reconnectAttempts s < maxReconnectAttempts s")
      case True
      with st ih show ?thesis
        by (simp add: r f upt_conv_Cons min_def)
    next
      case False
      with Cons.prems have "reconnectAttempts s = maxReconnectAttempts s" by simp
      with st ih show ?thesis by (simp add: r f)
    qed
  qed
qed

section \<open>Movement commands\<close>

lemma held_empty_iff:
  "held K = {} \<longleftrightarrow>
     ''ArrowUp'' \<notin> K \<and> ''ArrowDown'' \<notin> K \<and> ''ArrowLeft'' \<notin> K \<and> ''ArrowRight'' \<notin> K"
  by (auto simp: held_def arrow_keys_def)

lemma sendMovementCommand_effect:
  "isMoving (sendMovementCommand s) = (held (keysPressed s) \<noteq> {})"
  "sent (sendMovementCommand s) =
     sent s @ (if \<not> ws_open s then []
               else if held (keysPressed s) \<noteq> {} then [Move (first_direction (keysPressed s))]
               else if isMoving s then [Stop] else [])"
  by (auto simp: sendMovementCommand_def sendMessage_def held_empty_iff first_direction_def)

lemma step_key_effect:
  assumes "is_key_event e"
  shows "keysPressed (step e s) = keys_after e (keysPressed s)"
    and "ws_open (step e s) = ws_open s"
    and "isMoving (step e s) = (held (keys_after e (keysPressed s)) \<noteq> {})"
    and "sent (step e s) =
           sent s @ (if \<not> ws_open s then []
                     else if held (keys_after e (keysPressed s)) \<noteq> {}
                       then [Move (first_direction (keys_after e (keysPressed s)))]
                     else if isMoving s then [Stop] else [])"
  using assms
  by (cases e; simp add: handleKeyDown_def handleKeyUp_def sendMovementCommand_effect)+

lemma step_moving_invariant:
  assumes "isMoving s = (held (keysPressed s) \<noteq> {})"
  shows "isMoving (step e s) = (held (keysPressed (step e s)) \<noteq> {})"
proof (cases "is_key_event e")
  case True
  then show ?thesis by (simp add: step_key_effect)
next
  case False
  then have "isMoving (step e s) = isMoving s \<and> keysPressed (step e s) = keysPressed s"
    by (cases e)
       (simp_all add: ws_onopen_def ws_onclose_def joinGame_def connectToServer_def
          step_WsMessage split: option.splits)
  with assms show ?thesis by simp
qed

lemma run_moving_invariant:
  assumes "isMoving s = (held (keysPressed s) \<noteq> {})"
  shows "isMoving (run evs s) = (held (keysPressed (run evs s)) \<noteq> {})"
  using assms
proof (induction evs arbitrary: s)
  case Nil
  then show ?case by (simp add: run_def)
next
  case (Cons e evs)
  have "run (e # evs) s = run evs (step e s)" by (simp add: run_def)
  with Cons.IH [OF step_moving_invariant [OF Cons.prems]] show ?case by simp
qed

lemma run_keys_sent:
  assumes "\<forall>e \<in> set evs. is_key_event e" and "isMoving s = (held (keysPressed s) \<noteq> {})"
  shows "sent (run evs s) =
           sent s @ (if ws_open s then spec_commands (keysPressed s) evs else [])"
  using assms
proof (induction evs arbitrary: s)
  case Nil
  then show ?case by (simp add: run_def)
next
  case (Cons e evs)
  from Cons.prems have k: "is_key_event e" and ks: "\<forall>e \<in> set evs. is_key_event e" by simp_all
  have r: "run (e # evs) s = run evs (step e s)" by (simp add: run_def)
  note ih = Cons.IH [OF ks step_moving_invariant [OF Cons.prems(2)]]
  show ?case
    using Cons.prems(2) by (simp add: r ih step_key_effect [OF k])
qed

lemma count_spec_commands:
  "count_list (spec_commands K evs) Stop = stop_transitions K evs"
  by (induction evs arbitrary: K) simp_all

lemma new_GameClient_invariant:
  "isMoving (new_GameClient w h) = (held (keysPressed (new_GameClient w h)) \<noteq> {})"
  by (simp add: new_GameClient_def held_def)



section \<open>Merging and removing players\<close>

lemma map_of_object_assign:
  "map_of (object_assign target source) = map_of target ++ map_of (rev source)"
proof (induction source arbitrary: target)
  case Nil
  show ?case by (simp add: object_assign_def)
next
  case (Cons kv source)
  obtain k v where kv: "kv = (k, v)" by (cases kv)
  have "object_assign target (kv # source) = object_assign (AList.update k v target) source"
    by (simp add: object_assign_def kv)
  then show ?case
    by (simp add: Cons.IH kv update_conv' map_add_def fun_eq_iff split: option.splits)
qed

lemma map_of_rev_member:
  assumes "distinct (map fst xs)" and "(k, v) \<in> set xs"
  shows "map_of (rev xs) k = Some v"
proof -
  have "distinct (map fst (rev xs))" using assms(1) by (simp add: rev_map [symmetric])
  moreover have "(k, v) \<in> set (rev xs)" using assms(2) by simp
  ultimately show ?thesis by (rule map_of_is_SomeI)
qed

section \<open>The local identity\<close>

lemma step_myPlayerId:
  "myPlayerId (step e s) =
     (case e of
        WsMessage (Some (JoinGameOk playerId ps avs)) \<Rightarrow> playerId
      | _ \<Rightarrow> myPlayerId s)"
  by (cases e)
     (simp_all add: handleKeyDown_def handleKeyUp_def ws_onopen_def ws_onclose_def joinGame_def
        connectToServer_def step_WsMessage split: option.splits server_message.splits)

lemma run_myPlayerId:
  "list_all carries_playerId evs \<Longrightarrow> myPlayerId s \<noteq> None \<Longrightarrow> myPlayerId (run evs s) \<noteq> None"
proof (induction evs arbitrary: s)
  case Nil
  then show ?case by (simp add: run_def)
next
  case (Cons e evs)
  have "myPlayerId (step e s) \<noteq> None"
    using Cons.prems
    by (cases e rule: carries_playerId.cases) (simp_all add: step_myPlayerId del: step.simps)
  moreover have "list_all carries_playerId evs" using Cons.prems by simp
  ultimately have "myPlayerId (run evs (step e s)) \<noteq> None" by (rule Cons.IH [rotated])
  then show ?case by (simp add: run_def)
qed

section \<open>The asset cache\<close>

lemma has_property_own [simp]: "own k = Some v \<Longrightarrow> has_property own k"
  by (simp add: has_property_def)

lemma has_property_inherited [simp]: "k \<in> object_prototype_names \<Longrightarrow> has_property own k"
  by (simp add: has_property_def split: option.splits)

lemma has_property_iff:
  "has_property own k \<longleftrightarrow> own k \<noteq> None \<or> k \<in> object_prototype_names"
  by (auto simp: has_property_def split: option.splits)

lemma one_avatars [simp]: "avatars (loadAvatarImages_one nm s) = avatars s"
  by (subst loadAvatarImages_one_frame) simp

lemma one_keeps_entry:
  "loadedAvatars s nm = Some la \<Longrightarrow> loadedAvatars (loadAvatarImages_one nm' s) nm = Some la"
  by (auto simp: loadAvatarImages_one_def split: option.splits)

lemma one_keeps_property:
  "has_property (loadedAvatars s) nm \<Longrightarrow>
     has_property (loadedAvatars (loadAvatarImages_one nm' s)) nm"
  by (auto simp: loadAvatarImages_one_def has_property_iff split: option.splits)

lemma one_noop: "has_property (loadedAvatars s) nm \<Longrightarrow> loadAvatarImages_one nm s = s"
  by (simp add: loadAvatarImages_one_def)

lemma one_caches:
  "map_of (avatars s) nm \<noteq> None \<Longrightarrow>
     has_property (loadedAvatars (loadAvatarImages_one nm s)) nm"
  by (auto simp: loadAvatarImages_one_def has_property_iff split: option.splits)

lemma one_other:
  "nm \<noteq> nm' \<Longrightarrow> loadedAvatars (loadAvatarImages_one nm' s) nm = loadedAvatars s nm"
  by (auto simp: loadAvatarImages_one_def split: option.splits)

lemma filter_load_frames:
  "filter (\<lambda>l. fst l = nm) (load_frames nm' av) = (if nm = nm' then load_frames nm' av else [])"
  by (auto simp: load_frames_def filter_empty_conv intro!: filter_True)

lemma one_loads_for:
  "filter (\<lambda>l. fst l = nm) (loads (loadAvatarImages_one nm' s)) =
     filter (\<lambda>l. fst l = nm) (loads s) @
     (if nm = nm' \<and> \<not> has_property (loadedAvatars s) nm
      then (case map_of (avatars s) nm of None \<Rightarrow> [] | Some av \<Rightarrow> load_frames nm av)
      else [])"
  by (auto simp: loadAvatarImages_one_def filter_load_frames split: option.splits)

lemma each_avatars [simp]: "avatars (fold loadAvatarImages_one nms s) = avatars s"
  by (subst fold_loadAvatarImages_one_frame) simp

lemma each_keeps_entry:
  "loadedAvatars s nm = Some la \<Longrightarrow>
     loadedAvatars (fold loadAvatarImages_one nms s) nm = Some la"
  by (induction nms arbitrary: s) (simp_all add: one_keeps_entry)

lemma each_keeps_property:
  "has_property (loadedAvatars s) nm \<Longrightarrow>
     has_property (loadedAvatars (fold loadAvatarImages_one nms s)) nm"
  by (induction nms arbitrary: s) (simp_all add: one_keeps_property)

lemma each_loads_for:
  "filter (\<lambda>l. fst l = nm) (loads (fold loadAvatarImages_one nms s)) =
     filter (\<lambda>l. fst l = nm) (loads s) @
     (if nm \<in> set nms \<and> \<not> has_property (loadedAvatars s) nm
      then (case map_of (avatars s) nm of None \<Rightarrow> [] | Some av \<Rightarrow> load_frames nm av)
      else [])"
proof (induction nms arbitrary: s)
  case Nil
  show ?case by simp
next
  case (Cons nm' nms)
  show ?case
  proof (cases "has_property (loadedAvatars s) nm")
    case True
    then have "has_property (loadedAvatars (loadAvatarImages_one nm' s)) nm"
      by (rule one_keeps_property)
    with True show ?thesis by (simp add: Cons.IH one_loads_for)
  next
    case False
    show ?thesis
    proof (cases "nm = nm'")
      case True
      then have e: "nm' = nm" by simp
      show ?thesis
      proof (cases "map_of (avatars s) nm")
        case None
        with False have "loadAvatarImages_one nm s = s"
          by (simp add: loadAvatarImages_one_def)
        with False None show ?thesis unfolding e by (simp add: Cons.IH)
      next
        case (Some av)
        then have "has_property (loadedAvatars (loadAvatarImages_one nm s)) nm"
          using one_caches [of s nm] by simp
        with False Some show ?thesis unfolding e by (simp add: Cons.IH one_loads_for)
      qed
    next
      case n: False
      then have "loadedAvatars (loadAvatarImages_one nm' s) nm = loadedAvatars s nm"
        by (rule one_other)
      with False n show ?thesis by (simp add: Cons.IH one_loads_for has_property_def)
    qed
  qed
qed

lemma each_noop:
  "\<forall>nm \<in> set nms. has_property (loadedAvatars s) nm \<Longrightarrow>
     fold loadAvatarImages_one nms s = s"
  by (induction nms arbitrary: s) (simp_all add: one_noop)

lemma each_caches_all:
  "nm \<in> set nms \<Longrightarrow> map_of (avatars s) nm \<noteq> None \<Longrightarrow>
     has_property (loadedAvatars (fold loadAvatarImages_one nms s)) nm"
proof (induction nms arbitrary: s)
  case Nil
  then show ?case by simp
next
  case (Cons nm' nms)
  show ?case
  proof (cases "nm = nm'")
    case True
    with Cons.prems(2) have "has_property (loadedAvatars (loadAvatarImages_one nm' s)) nm"
      using one_caches [of s nm] by simp
    then have
      "has_property (loadedAvatars (fold loadAvatarImages_one nms (loadAvatarImages_one nm' s))) nm"
      by (rule each_keeps_property)
    then show ?thesis by simp
  next
    case False
    with Cons.prems have "nm \<in> set nms" by simp
    moreover have "map_of (avatars (loadAvatarImages_one nm' s)) nm \<noteq> None"
      using Cons.prems(2) by simp
    ultimately have
      "has_property (loadedAvatars (fold loadAvatarImages_one nms (loadAvatarImages_one nm' s))) nm"
      by (rule Cons.IH)
    then show ?thesis by simp
  qed
qed

lemma loadAvatarImages_all_cached: "all_cached (loadAvatarImages s)"
  unfolding all_cached_def loadAvatarImages_def
proof
  fix nm assume "nm \<in> fst ` set (avatars (fold loadAvatarImages_one (map fst (avatars s)) s))"
  then have m: "nm \<in> set (map fst (avatars s))" by simp
  then have "map_of (avatars s) nm \<noteq> None" by (simp add: map_of_eq_None_iff)
  with m show
    "has_property (loadedAvatars (fold loadAvatarImages_one (map fst (avatars s)) s)) nm"
    by (rule each_caches_all)
qed

lemma loadAvatarImages_noop: "all_cached s \<Longrightarrow> loadAvatarImages s = s"
  unfolding all_cached_def loadAvatarImages_def by (rule each_noop) simp

lemma img_onload_all_cached:
  "all_cached s \<Longrightarrow> all_cached (state_after (img_onload nm d i img s))"
  by (auto simp: all_cached_def img_onload_def has_property_iff
        split: option.splits direction.splits)

lemma finish_loads_Cons:
  "finish_loads ((nm, d, i, src) # cs) s
     = finish_loads cs (state_after (img_onload nm d i (Image src) s))"
  by (simp add: finish_loads_def)

lemma finish_loads_all_cached: "all_cached s \<Longrightarrow> all_cached (finish_loads cs s)"
proof (induction cs arbitrary: s)
  case Nil
  then show ?case by (simp add: finish_loads_def)
next
  case (Cons c cs)
  obtain nm d i src where c: "c = (nm, d, i, src)" by (cases c)
  from Cons.IH [OF img_onload_all_cached [OF Cons.prems]] show ?case
    by (simp add: c finish_loads_Cons)
qed

lemma finish_loads_loads [simp]: "loads (finish_loads cs s) = loads s"
proof (induction cs arbitrary: s)
  case Nil
  show ?case by (simp add: finish_loads_def)
next
  case (Cons c cs)
  obtain nm d i src where c: "c = (nm, d, i, src)" by (cases c)
  show ?case by (simp add: c finish_loads_Cons Cons.IH)
qed

lemma set_load_frames:
  "(nm', d, i, src) \<in> set (load_frames nm av) \<longleftrightarrow>
     nm' = nm \<and> d \<noteq> West \<and> i < length (frames av d) \<and> src = frames av d ! i"
  by (cases d) (auto simp: load_frames_def in_set_enumerate_eq)

lemma distinct_frame_loads:
  "distinct (map (\<lambda>(i, src). (nm, d, i, src)) (enumerate 0 xs))"
  by (simp add: distinct_map inj_on_def split_beta prod_eq_iff)

lemma distinct_load_frames: "distinct (load_frames nm av)"
  by (auto simp: load_frames_def distinct_frame_loads)

lemma loadAvatarImages_loads_for:
  assumes "map_of (avatars s) nm = Some av" and "\<not> has_property (loadedAvatars s) nm"
  shows "filter (\<lambda>l. fst l = nm) (loads (loadAvatarImages s)) =
           filter (\<lambda>l. fst l = nm) (loads s) @ load_frames nm av"
proof -
  from assms(1) have "nm \<in> set (map fst (avatars s))"
    by (metis map_of_eq_None_iff option.distinct(1) set_map)
  with assms show ?thesis by (simp add: loadAvatarImages_def each_loads_for)
qed

lemma loadAvatarImages_skips:
  assumes "has_property (loadedAvatars s) nm"
  shows "loadedAvatars (loadAvatarImages s) nm = loadedAvatars s nm"
    and "filter (\<lambda>l. fst l = nm) (loads (loadAvatarImages s)) = filter (\<lambda>l. fst l = nm) (loads s)"
proof -
  show "filter (\<lambda>l. fst l = nm) (loads (loadAvatarImages s)) = filter (\<lambda>l. fst l = nm) (loads s)"
    using assms by (simp add: loadAvatarImages_def each_loads_for)
  have "loadedAvatars (fold loadAvatarImages_one nms s) nm = loadedAvatars s nm" for nms
    using assms
  proof (induction nms arbitrary: s)
    case Nil
    show ?case by simp
  next
    case (Cons nm' nms)
    have "loadedAvatars (loadAvatarImages_one nm' s) nm = loadedAvatars s nm"
      using Cons.prems by (cases "nm = nm'") (simp_all add: one_noop one_other)
    with Cons.IH [OF one_keeps_property [OF Cons.prems]] show ?case by simp
  qed
  then show "loadedAvatars (loadAvatarImages s) nm = loadedAvatars s nm"
    by (simp add: loadAvatarImages_def)
qed

lemma loadAvatarImages_keeps:
  assumes "loadedAvatars s nm = Some la"
  shows "loadedAvatars (loadAvatarImages s) nm = Some la"
    and "filter (\<lambda>l. fst l = nm) (loads (loadAvatarImages s)) = filter (\<lambda>l. fst l = nm) (loads s)"
  using assms loadAvatarImages_skips [of s nm] by simp_all

lemma handleServerMessage_keeps:
  assumes "loadedAvatars s nm = Some la"
  shows "loadedAvatars (state_after (handleServerMessage m s)) nm = Some la"
    and "filter (\<lambda>l. fst l = nm) (loads (state_after (handleServerMessage m s)))
           = filter (\<lambda>l. fst l = nm) (loads s)"
  using assms by (cases m; simp add: loadAvatarImages_keeps)+

lemma drawPlayer_cong:
  assumes "(map_of (avatars s') (avatar q) = None) = (map_of (avatars s) (avatar q) = None)"
    and "loadedAvatars s' (avatar q) = loadedAvatars s (avatar q)"
    and "viewport_x s' = viewport_x s" and "viewport_y s' = viewport_y s"
    and "canvas_width s' = canvas_width s" and "canvas_height s' = canvas_height s"
    and "avatarSize s' = avatarSize s"
  shows "drawPlayer s' q = drawPlayer s q"
proof -
  have "has_property (map_of (avatars s')) (avatar q) = has_property (map_of (avatars s)) (avatar q)"
    using assms(1) by (auto simp: has_property_iff)
  moreover have
    "has_property (loadedAvatars s') (avatar q) = has_property (loadedAvatars s) (avatar q)"
    using assms(2) by (simp add: has_property_def)
  ultimately show ?thesis
    using assms(2-) by (auto simp: drawPlayer_def Let_def split: option.splits)
qed

section \<open>Drawing one player\<close>

lemma drawPlayer_culled:
  assumes "loadedAvatars s (avatar p) = Some la"
    and "pos_x p - viewport_x s < - avatarSize s
         \<or> pos_x p - viewport_x s > canvas_width s + avatarSize s
         \<or> pos_y p - viewport_y s < - avatarSize s
         \<or> pos_y p - viewport_y s > canvas_height s + avatarSize s"
  shows "drawPlayer s p = Inr []"
  using assms by (auto simp: drawPlayer_def Let_def split: option.splits)

lemma drawPlayer_visible:
  assumes "map_of (avatars s) (avatar p) = Some ad" and "loadedAvatars s (avatar p) = Some la"
    and "select_frame la p = Some img"
    and "- avatarSize s \<le> pos_x p - viewport_x s"
    and "pos_x p - viewport_x s \<le> canvas_width s + avatarSize s"
    and "- avatarSize s \<le> pos_y p - viewport_y s"
    and "pos_y p - viewport_y s \<le> canvas_height s + avatarSize s"
  shows "drawPlayer s p = Inr
    ([Save] @
     (if facing p = West
      then [Scale (- 1) 1,
            DrawImage img (- (pos_x p - viewport_x s) - avatarSize s / 2)
              (pos_y p - viewport_y s - avatarSize s / 2) (avatarSize s) (avatarSize s)]
      else [DrawImage img (pos_x p - viewport_x s - avatarSize s / 2)
              (pos_y p - viewport_y s - avatarSize s / 2) (avatarSize s) (avatarSize s)]) @
     [Restore,
      FillStyle ''#ffffff'', StrokeStyle ''#000000'', LineWidth 2,
      Font ''14px Arial'', TextAlign ''center'',
      StrokeText (username p) (pos_x p - viewport_x s) (pos_y p - viewport_y s - avatarSize s / 2 - 5),
      FillText (username p) (pos_x p - viewport_x s) (pos_y p - viewport_y s - avatarSize s / 2 - 5)])"
  using assms by (simp add: drawPlayer_def Let_def not_less [symmetric])

lemma client_joined_view:
  "map_of (avatars client_joined) ''knight'' = Some avatar_knight"
  "loadedAvatars client_joined ''knight'' =
     Some \<lparr> north = [], south = [Some (Image ''s0'')], east = [None, Some (Image ''e1'')] \<rparr>"
  "viewport_x client_joined = 100" "viewport_y client_joined = 200"
  "canvas_width client_joined = 800" "canvas_height client_joined = 600"
  "avatarSize client_joined = 64"
  by (simp_all add: client_joined_def client_800x600_def new_GameClient_def)


section \<open>The properties of the specification\<close>

subsection \<open>Viewport clamp\<close>

text \<open>
  C1. When the local player is present and the world is at least as large as the surface
  on both axes, \<open>updateViewport\<close> leaves the viewport origin within
  \<open>[0, worldDimension - surfaceDimension]\<close> on each axis, and equal to
  \<open>position - surfaceDimension / 2\<close> on an axis where that value already lies in the
  range.
\<close>

theorem updateViewport_clamp:
  assumes "myPlayerId s = Some i" and "i \<noteq> []" and "map_of (players s) i = Some p"
    and "canvas_width s \<le> mapWidth s" and "canvas_height s \<le> mapHeight s"
  shows "0 \<le> viewport_x (updateViewport s)
       \<and> viewport_x (updateViewport s) \<le> mapWidth s - canvas_width s
       \<and> 0 \<le> viewport_y (updateViewport s)
       \<and> viewport_y (updateViewport s) \<le> mapHeight s - canvas_height s
       \<and> (0 \<le> pos_x p - canvas_width s / 2
            \<and> pos_x p - canvas_width s / 2 \<le> mapWidth s - canvas_width s
          \<longrightarrow> viewport_x (updateViewport s) = pos_x p - canvas_width s / 2)
       \<and> (0 \<le> pos_y p - canvas_height s / 2
            \<and> pos_y p - canvas_height s / 2 \<le> mapHeight s - canvas_height s
          \<longrightarrow> viewport_y (updateViewport s) = pos_y p - canvas_height s / 2)"
  using assms by (simp add: updateViewport_def Let_def)

theorem updateViewport_clamp_witness:
  "myPlayerId client_800x600 = Some ''p1'' \<and> ''p1'' \<noteq> []
   \<and> map_of (players client_800x600) ''p1'' = Some player_p1
   \<and> canvas_width client_800x600 \<le> mapWidth client_800x600
   \<and> canvas_height client_800x600 \<le> mapHeight client_800x600
   \<and> viewport_x (updateViewport client_800x600) = 100
   \<and> viewport_y (updateViewport client_800x600) = 200"
proof -
  have h: "myPlayerId client_800x600 = Some ''p1''" "''p1'' \<noteq> []"
    "map_of (players client_800x600) ''p1'' = Some player_p1"
    "canvas_width client_800x600 \<le> mapWidth client_800x600"
    "canvas_height client_800x600 \<le> mapHeight client_800x600"
    by (simp_all add: client_800x600_def new_GameClient_def)
  have v: "pos_x player_p1 - canvas_width client_800x600 / 2 = 100"
    "pos_y player_p1 - canvas_height client_800x600 / 2 = 200"
    "mapWidth client_800x600 - canvas_width client_800x600 = 1248"
    "mapHeight client_800x600 - canvas_height client_800x600 = 1448"
    by (simp_all add: client_800x600_def new_GameClient_def player_p1_def)
  from updateViewport_clamp [OF h] show ?thesis
    using h by (simp add: v)
qed

subsection \<open>Reconnection bound and backoff\<close>

text \<open>
  C2. Reconnection attempts are numbered by \<open>reconnectAttempts\<close>, from 1, since the last
  successful open. Along any run without a successful open that starts with the counter at
  0 (a fresh client, or just after an open), the delays passed to \<open>setTimeout\<close> are
  exactly \<open>2000 * n\<close> for \<open>n = 1, ..., min(failures, maxReconnectAttempts)\<close>, one for
  each failure up to the bound. Once \<open>maxReconnectAttempts\<close> failures have been handled
  no further attempt is scheduled: \<open>attemptReconnect\<close> and another close change no
  timer. Every successful open resets the counter to 0.
\<close>

theorem reconnect_bound:
  assumes "WsOpen \<notin> set evs" and "reconnectAttempts s = 0"
  shows "timers (run evs s) =
           timers s @ map (\<lambda>n. 2000 * n) [1 ..< Suc (min (failures evs) (maxReconnectAttempts s))]
       \<and> reconnectAttempts (run evs s) = min (failures evs) (maxReconnectAttempts s)
       \<and> (maxReconnectAttempts s \<le> failures evs \<longrightarrow>
            attemptReconnect (run evs s) = run evs s
          \<and> timers (step WsClose (run evs s)) = timers (run evs s))
       \<and> reconnectAttempts (step WsOpen s') = 0"
proof -
  from assms have "reconnectAttempts s \<le> maxReconnectAttempts s" by simp
  note r = run_no_open [OF assms(1) this]
  have a: "timers (run evs s) =
           timers s @ map (\<lambda>n. 2000 * n) [1 ..< Suc (min (failures evs) (maxReconnectAttempts s))]"
    using r assms(2) by simp
  have b: "reconnectAttempts (run evs s) = min (failures evs) (maxReconnectAttempts s)"
    using r assms(2) by simp
  have m: "maxReconnectAttempts (run evs s) = maxReconnectAttempts s" using r by simp
  have c: "attemptReconnect (run evs s) = run evs s
          \<and> timers (step WsClose (run evs s)) = timers (run evs s)"
    if "maxReconnectAttempts s \<le> failures evs"
    using that b m by (simp add: attemptReconnect_def ws_onclose_def)
  have d: "reconnectAttempts (step WsOpen s') = 0"
    by (simp add: ws_onopen_def joinGame_def)
  from a b c d show ?thesis by blast
qed

theorem reconnect_bound_witness:
  "WsOpen \<notin> set five_failures \<and> reconnectAttempts (new_GameClient 800 600) = 0
   \<and> maxReconnectAttempts (new_GameClient 800 600) \<le> failures five_failures
   \<and> timers (run five_failures (new_GameClient 800 600)) = [2000, 4000, 6000, 8000, 10000]
   \<and> timers (step WsClose (run five_failures (new_GameClient 800 600)))
        = timers (run five_failures (new_GameClient 800 600))"
proof -
  have h: "WsOpen \<notin> set five_failures" "reconnectAttempts (new_GameClient 800 600) = 0"
    by (simp_all add: five_failures_def new_GameClient_def)
  have f: "failures five_failures = 5" by (simp add: failures_def five_failures_def)
  have m: "maxReconnectAttempts (new_GameClient 800 600) = 5"
    "timers (new_GameClient 800 600) = []" by (simp_all add: new_GameClient_def)
  have u: "map (\<lambda>n. 2000 * n) [Suc 0 ..< 6] = [2000, 4000, 6000, 8000, 10000::nat]"
    by (simp add: upt_rec)
  from reconnect_bound [OF h] show ?thesis
    using h by (simp add: f m u)
qed

subsection \<open>Merge semantics of players_moved\<close>

text \<open>
  C3. Handling a \<open>players_moved\<close> message leaves every player whose id the message does
  not mention unchanged (the whole entry, hence all of its fields), and replaces the entry
  of every id it mentions by the one the message carries; the local identity and the
  avatars are untouched. This holds whether or not the ids of the message are known.
\<close>

theorem players_moved_merge:
  "(k \<notin> fst ` set ps \<longrightarrow>
      map_of (players (state_after (handleServerMessage (PlayersMoved ps) s))) k = map_of (players s) k)
   \<and> (distinct (map fst ps) \<and> (k, v) \<in> set ps \<longrightarrow>
      map_of (players (state_after (handleServerMessage (PlayersMoved ps) s))) k = Some v)
   \<and> myPlayerId (state_after (handleServerMessage (PlayersMoved ps) s)) = myPlayerId s
   \<and> avatars (state_after (handleServerMessage (PlayersMoved ps) s)) = avatars s"
proof -
  have a: "k \<notin> fst ` set ps \<Longrightarrow> map_of (rev ps) k = None"
    by (simp add: map_of_eq_None_iff)
  have b: "distinct (map fst ps) \<Longrightarrow> (k, v) \<in> set ps \<Longrightarrow> map_of (rev ps) k = Some v"
    by (rule map_of_rev_member)
  show ?thesis
    by (auto simp: map_of_object_assign map_add_def a b)
qed

theorem players_moved_merge_witness:
  "''p1'' \<notin> fst ` set [(''p2'', player_p2_moved)]
   \<and> distinct (map fst [(''p2'', player_p2_moved)])
   \<and> (''p2'', player_p2_moved) \<in> set [(''p2'', player_p2_moved)]
   \<and> map_of (players (state_after (handleServerMessage (PlayersMoved [(''p2'', player_p2_moved)]) client_joined)))
        ''p1'' = Some player_p1
   \<and> map_of (players (state_after (handleServerMessage (PlayersMoved [(''p2'', player_p2_moved)]) client_joined)))
        ''p2'' = Some player_p2_moved"
proof -
  have p: "map_of (players client_joined) ''p1'' = Some player_p1"
    by (simp add: client_joined_def client_800x600_def)
  have h: "''p1'' \<notin> fst ` set [(''p2'', player_p2_moved)]"
    "distinct (map fst [(''p2'', player_p2_moved)])"
    "(''p2'', player_p2_moved) \<in> set [(''p2'', player_p2_moved)]"
    by simp_all
  from h(1) players_moved_merge [where k = "''p1''" and ps = "[(''p2'', player_p2_moved)]"
         and s = client_joined]
  have a: "map_of (players (state_after (handleServerMessage (PlayersMoved [(''p2'', player_p2_moved)])
             client_joined))) ''p1'' = map_of (players client_joined) ''p1''"
    by blast
  from h(2,3) players_moved_merge [where k = "''p2''" and ps = "[(''p2'', player_p2_moved)]"
         and v = player_p2_moved and s = client_joined]
  have b: "map_of (players (state_after (handleServerMessage (PlayersMoved [(''p2'', player_p2_moved)])
             client_joined))) ''p2'' = Some player_p2_moved"
    by blast
  from h a b p show ?thesis by (simp only: simp_thms)
qed

subsection \<open>Idempotent asset requests\<close>

lemma loadAvatarImages_twice:
  assumes "map_of (avatars s) nm = Some av" and "\<not> has_property (loadedAvatars s) nm"
  shows "loadAvatarImages (finish_loads cs (loadAvatarImages s)) = finish_loads cs (loadAvatarImages s)
       \<and> filter (\<lambda>l. fst l = nm) (loads (loadAvatarImages (finish_loads cs (loadAvatarImages s))))
           = filter (\<lambda>l. fst l = nm) (loads s) @ load_frames nm av
       \<and> distinct (load_frames nm av)
       \<and> ((nm, d, i, src) \<in> set (load_frames nm av) \<longleftrightarrow>
             d \<noteq> West \<and> i < length (frames av d) \<and> src = frames av d ! i)"
proof -
  have n: "loadAvatarImages (finish_loads cs (loadAvatarImages s))
             = finish_loads cs (loadAvatarImages s)"
    by (rule loadAvatarImages_noop [OF finish_loads_all_cached [OF loadAvatarImages_all_cached]])
  show ?thesis
    by (simp add: n loadAvatarImages_loads_for [OF assms] distinct_load_frames set_load_frames)
qed

text \<open>
  C4. Loading twice starts the loads of an avatar once for every name that
  \<open>Object.prototype\<close> does not answer (\<open>loadAvatarImages_twice\<close>: the second call changes
  nothing, and the loads started for the name are every frame of the three cached
  directions once). It does not for a name such as \<open>constructor\<close>: a fresh client that
  learns of an avatar of that name, with four frames, starts no load for it, neither on the
  \<open>player_joined\<close> that brings it nor on any later call, and never creates its cache
  entry, because the guard reads the inherited \<open>Object.prototype.constructor\<close> as an
  entry that is already there.
\<close>

theorem constructor_avatar_never_loaded:
  "map_of (avatars client_met_constructor) ''constructor'' = Some avatar_constructor
   \<and> length (load_frames ''constructor'' avatar_constructor) = 4
   \<and> loads client_met_constructor = []
   \<and> loads (loadAvatarImages (loadAvatarImages client_met_constructor)) = []
   \<and> loadedAvatars (loadAvatarImages (loadAvatarImages client_met_constructor)) ''constructor''
        = None"
  by (simp add: client_met_constructor_def run_def new_GameClient_def draw_def
        loadAvatarImages_def loadAvatarImages_one_def has_property_def
        object_prototype_names_def drawPlayer_def load_frames_def
        avatar_constructor_def player_p4_def enumerate_eq_zip upt_rec)

subsection \<open>West is the mirrored east frame\<close>

text \<open>
  C5, as the code has it. A player facing west with \<open>animationFrame = k\<close> (or none, for
  \<open>k = 0\<close>), whose avatar is in the \<open>avatars\<close> map and has its east frame \<open>k\<close> loaded,
  and who is not culled: the frame selected is the one at index \<open>k\<close> of the \<open>east\<close> array
  (a cache entry has no west array), \<open>drawPlayer\<close> does not throw, and what reaches the
  screen is that frame, mirrored, in the rectangle of side \<open>avatarSize\<close> centred on the
  player's screen position, which is the rectangle the same player facing east occupies,
  unmirrored.
\<close>

theorem west_mirrored:
  assumes "facing p = West"
    and "animationFrame p = Some k \<or> animationFrame p = None \<and> k = 0"
    and "map_of (avatars s) (avatar p) = Some ad" and "loadedAvatars s (avatar p) = Some la"
    and "arr_get (east la) k = Some img"
    and "- avatarSize s \<le> pos_x p - viewport_x s"
    and "pos_x p - viewport_x s \<le> canvas_width s + avatarSize s"
    and "- avatarSize s \<le> pos_y p - viewport_y s"
    and "pos_y p - viewport_y s \<le> canvas_height s + avatarSize s"
    and "0 \<le> avatarSize s"
  shows "select_frame la p = arr_get (east la) k
       \<and> (\<exists>ops. drawPlayer s p = Inr ops
            \<and> blits (1, 1) [] ops =
                [(img, pos_x p - viewport_x s - avatarSize s / 2,
                       pos_y p - viewport_y s - avatarSize s / 2, avatarSize s, avatarSize s, True)])
       \<and> (\<exists>ops. drawPlayer s (p\<lparr> facing := East \<rparr>) = Inr ops
            \<and> blits (1, 1) [] ops =
                [(img, pos_x p - viewport_x s - avatarSize s / 2,
                       pos_y p - viewport_y s - avatarSize s / 2, avatarSize s, avatarSize s, False)])"
proof -
  have i: "frame_index p = k" "frame_index (p\<lparr> facing := East \<rparr>) = k"
    using assms(2) by (auto simp: frame_index_def)
  have f: "select_frame la p = Some img" using assms(1,5) i by (simp add: select_frame_def)
  have g: "select_frame la (p\<lparr> facing := East \<rparr>) = Some img"
    using assms(5) i by (simp add: select_frame_def)
  have w: "drawPlayer s p = Inr [Save, Scale (- 1) 1,
            DrawImage img (- (pos_x p - viewport_x s) - avatarSize s / 2)
              (pos_y p - viewport_y s - avatarSize s / 2) (avatarSize s) (avatarSize s),
            Restore, FillStyle ''#ffffff'', StrokeStyle ''#000000'', LineWidth 2,
            Font ''14px Arial'', TextAlign ''center'',
            StrokeText (username p) (pos_x p - viewport_x s) (pos_y p - viewport_y s - avatarSize s / 2 - 5),
            FillText (username p) (pos_x p - viewport_x s) (pos_y p - viewport_y s - avatarSize s / 2 - 5)]"
    using drawPlayer_visible [OF assms(3,4) f assms(6-9)] assms(1) by simp
  have e: "drawPlayer s (p\<lparr> facing := East \<rparr>) = Inr [Save,
            DrawImage img (pos_x p - viewport_x s - avatarSize s / 2)
              (pos_y p - viewport_y s - avatarSize s / 2) (avatarSize s) (avatarSize s),
            Restore, FillStyle ''#ffffff'', StrokeStyle ''#000000'', LineWidth 2,
            Font ''14px Arial'', TextAlign ''center'',
            StrokeText (username p) (pos_x p - viewport_x s) (pos_y p - viewport_y s - avatarSize s / 2 - 5),
            FillText (username p) (pos_x p - viewport_x s) (pos_y p - viewport_y s - avatarSize s / 2 - 5)]"
    using drawPlayer_visible [of s "p\<lparr> facing := East \<rparr>" ad la img] assms(3,4,6-9) g by simp
  show ?thesis
    using assms(5,10) by (simp add: f w e min_def)
qed

theorem west_mirrored_witness:
  "facing player_p1 = West \<and> animationFrame player_p1 = Some 1
   \<and> map_of (avatars client_joined) (avatar player_p1) = Some avatar_knight
   \<and> arr_get [None, Some (Image ''e1'')] 1 = Some (Image ''e1'')
   \<and> 0 \<le> avatarSize client_joined
   \<and> (\<exists>ops. drawPlayer client_joined player_p1 = Inr ops
        \<and> blits (1, 1) [] ops = [(Image ''e1'', 368, 268, 64, 64, True)])
   \<and> (\<exists>ops. drawPlayer client_joined (player_p1\<lparr> facing := East \<rparr>) = Inr ops
        \<and> blits (1, 1) [] ops = [(Image ''e1'', 368, 268, 64, 64, False)])"
proof -
  have p: "facing player_p1 = West" "avatar player_p1 = ''knight''"
    "pos_x player_p1 = 500" "pos_y player_p1 = 500" "animationFrame player_p1 = Some 1"
    by (simp_all add: player_p1_def)
  have h: "facing player_p1 = West"
    "animationFrame player_p1 = Some 1 \<or> animationFrame player_p1 = None \<and> (1::nat) = 0"
    "map_of (avatars client_joined) (avatar player_p1) = Some avatar_knight"
    "loadedAvatars client_joined (avatar player_p1) =
       Some \<lparr> north = [], south = [Some (Image ''s0'')], east = [None, Some (Image ''e1'')] \<rparr>"
    "arr_get (east \<lparr> north = [], south = [Some (Image ''s0'')], east = [None, Some (Image ''e1'')] \<rparr>)
       1 = Some (Image ''e1'')"
    "- avatarSize client_joined \<le> pos_x player_p1 - viewport_x client_joined"
    "pos_x player_p1 - viewport_x client_joined \<le> canvas_width client_joined + avatarSize client_joined"
    "- avatarSize client_joined \<le> pos_y player_p1 - viewport_y client_joined"
    "pos_y player_p1 - viewport_y client_joined \<le> canvas_height client_joined + avatarSize client_joined"
    "0 \<le> avatarSize client_joined"
    by (simp_all add: p client_joined_view arr_get_def)
  have v: "pos_x player_p1 - viewport_x client_joined - avatarSize client_joined / 2 = 368"
    "pos_y player_p1 - viewport_y client_joined - avatarSize client_joined / 2 = 268"
    "avatarSize client_joined = 64"
    by (simp_all add: p client_joined_view)
  note t = west_mirrored [OF h, unfolded v(1,2), unfolded v(3)]
  from t have b: "\<exists>ops. drawPlayer client_joined player_p1 = Inr ops
        \<and> blits (1, 1) [] ops = [(Image ''e1'', 368, 268, 64, 64, True)]"
    by blast
  from t have c: "\<exists>ops. drawPlayer client_joined (player_p1\<lparr> facing := East \<rparr>) = Inr ops
        \<and> blits (1, 1) [] ops = [(Image ''e1'', 368, 268, 64, 64, False)]"
    by blast
  have a: "arr_get [None, Some (Image ''e1'')] 1 = Some (Image ''e1'')"
    by (simp add: arr_get_def)
  from h(1,3,10) p(5) a b c show ?thesis by blast
qed

text \<open>
  C5 as stated fails when the definition of the avatar is no longer in the \<open>avatars\<close> map:
  after a second successful join whose \<open>avatars\<close> lacks the knight, the cache still holds
  the east frame 1 of the knight, the player faces west with \<open>animationFrame = 1\<close> and is on
  screen, and \<open>drawPlayer\<close> returns at its first guard without drawing.
\<close>

theorem west_not_drawn_counterexample:
  "facing player_p1 = West \<and> animationFrame player_p1 = Some 1
   \<and> loadedAvatars client_rejoined (avatar player_p1) =
       Some \<lparr> north = [], south = [Some (Image ''s0'')], east = [None, Some (Image ''e1'')] \<rparr>
   \<and> arr_get [None, Some (Image ''e1'')] 1 = Some (Image ''e1'')
   \<and> pos_x player_p1 - viewport_x client_rejoined = 400
   \<and> pos_y player_p1 - viewport_y client_rejoined = 300
   \<and> canvas_width client_rejoined = 800 \<and> canvas_height client_rejoined = 600
   \<and> avatarSize client_rejoined = 64
   \<and> drawPlayer client_rejoined player_p1 = Inr []"
  by (simp add: client_rejoined_def client_joined_def client_800x600_def new_GameClient_def
        player_p1_def draw_def loadAvatarImages_def updateViewport_def arr_get_def
        drawPlayer_def has_property_def object_prototype_names_def)

subsection \<open>Culling\<close>

text \<open>
  C6. For a player whose avatar is known and whose frame for the facing direction is
  loaded: when the screen position is more than \<open>avatarSize\<close> beyond any edge of the
  surface, \<open>drawPlayer\<close> issues no call at all; when it is at most \<open>avatarSize\<close> beyond
  every edge, which includes a position exactly \<open>avatarSize\<close> outside an edge, the sprite
  and the username label are drawn. In neither case does \<open>drawPlayer\<close> throw.
\<close>

theorem drawPlayer_culling:
  assumes "map_of (avatars s) (avatar p) = Some ad" and "loadedAvatars s (avatar p) = Some la"
    and "select_frame la p = Some img"
  shows "(pos_x p - viewport_x s < - avatarSize s
          \<or> pos_x p - viewport_x s > canvas_width s + avatarSize s
          \<or> pos_y p - viewport_y s < - avatarSize s
          \<or> pos_y p - viewport_y s > canvas_height s + avatarSize s
          \<longrightarrow> drawPlayer s p = Inr [])
       \<and> (- avatarSize s \<le> pos_x p - viewport_x s
          \<and> pos_x p - viewport_x s \<le> canvas_width s + avatarSize s
          \<and> - avatarSize s \<le> pos_y p - viewport_y s
          \<and> pos_y p - viewport_y s \<le> canvas_height s + avatarSize s
          \<longrightarrow> (\<exists>ops. drawPlayer s p = Inr ops
                \<and> (\<exists>x y. DrawImage img x y (avatarSize s) (avatarSize s) \<in> set ops)
                \<and> (\<exists>y. FillText (username p) (pos_x p - viewport_x s) y \<in> set ops)))"
proof (intro conjI impI)
  assume "pos_x p - viewport_x s < - avatarSize s
          \<or> pos_x p - viewport_x s > canvas_width s + avatarSize s
          \<or> pos_y p - viewport_y s < - avatarSize s
          \<or> pos_y p - viewport_y s > canvas_height s + avatarSize s"
  with assms(2) show "drawPlayer s p = Inr []" by (rule drawPlayer_culled)
next
  assume v: "- avatarSize s \<le> pos_x p - viewport_x s
          \<and> pos_x p - viewport_x s \<le> canvas_width s + avatarSize s
          \<and> - avatarSize s \<le> pos_y p - viewport_y s
          \<and> pos_y p - viewport_y s \<le> canvas_height s + avatarSize s"
  from v drawPlayer_visible [OF assms]
  show "\<exists>ops. drawPlayer s p = Inr ops
          \<and> (\<exists>x y. DrawImage img x y (avatarSize s) (avatarSize s) \<in> set ops)
          \<and> (\<exists>y. FillText (username p) (pos_x p - viewport_x s) y \<in> set ops)"
    by auto
qed

theorem drawPlayer_culling_witness:
  "pos_x player_at_edge - viewport_x client_joined = - avatarSize client_joined
   \<and> (\<exists>ops. drawPlayer client_joined player_at_edge = Inr ops
        \<and> (\<exists>x y. DrawImage (Image ''s0'') x y (avatarSize client_joined) (avatarSize client_joined)
               \<in> set ops)
        \<and> (\<exists>y. FillText (username player_at_edge)
                  (pos_x player_at_edge - viewport_x client_joined) y \<in> set ops))
   \<and> pos_x player_beyond_edge - viewport_x client_joined < - avatarSize client_joined
   \<and> drawPlayer client_joined player_beyond_edge = Inr []"
proof -
  have la: "select_frame \<lparr> north = [], south = [Some (Image ''s0'')], east = [None, Some (Image ''e1'')] \<rparr>
              player_at_edge = Some (Image ''s0'')"
    "select_frame \<lparr> north = [], south = [Some (Image ''s0'')], east = [None, Some (Image ''e1'')] \<rparr>
              player_beyond_edge = Some (Image ''s0'')"
    by (simp_all add: select_frame_def frame_index_def arr_get_def player_at_edge_def
          player_beyond_edge_def player_p2_def)
  have p: "avatar player_at_edge = ''knight''" "avatar player_beyond_edge = ''knight''"
    "pos_x player_at_edge = 36" "pos_y player_at_edge = 500"
    "pos_x player_beyond_edge = 35" "pos_y player_beyond_edge = 500"
    by (simp_all add: player_at_edge_def player_beyond_edge_def player_p2_def)
  have k: "map_of (avatars client_joined) (avatar player_at_edge) = Some avatar_knight"
    "loadedAvatars client_joined (avatar player_at_edge) =
       Some \<lparr> north = [], south = [Some (Image ''s0'')], east = [None, Some (Image ''e1'')] \<rparr>"
    "map_of (avatars client_joined) (avatar player_beyond_edge) = Some avatar_knight"
    "loadedAvatars client_joined (avatar player_beyond_edge) =
       Some \<lparr> north = [], south = [Some (Image ''s0'')], east = [None, Some (Image ''e1'')] \<rparr>"
    by (simp_all add: p client_joined_view)
  have e: "pos_x player_at_edge - viewport_x client_joined = - avatarSize client_joined"
    "pos_x player_beyond_edge - viewport_x client_joined < - avatarSize client_joined"
    by (simp_all add: p client_joined_view)
  have i: "- avatarSize client_joined \<le> pos_x player_at_edge - viewport_x client_joined
     \<and> pos_x player_at_edge - viewport_x client_joined \<le> canvas_width client_joined + avatarSize client_joined
     \<and> - avatarSize client_joined \<le> pos_y player_at_edge - viewport_y client_joined
     \<and> pos_y player_at_edge - viewport_y client_joined \<le> canvas_height client_joined + avatarSize client_joined"
    by (simp add: p client_joined_view)
  from i drawPlayer_culling [OF k(1,2) la(1)]
  have a: "\<exists>ops. drawPlayer client_joined player_at_edge = Inr ops
        \<and> (\<exists>x y. DrawImage (Image ''s0'') x y (avatarSize client_joined) (avatarSize client_joined)
               \<in> set ops)
        \<and> (\<exists>y. FillText (username player_at_edge)
                  (pos_x player_at_edge - viewport_x client_joined) y \<in> set ops)"
    by blast
  from e(2) drawPlayer_culling [OF k(3,4) la(2)]
  have b: "drawPlayer client_joined player_beyond_edge = Inr []"
    by blast
  from e a b show ?thesis by blast
qed

subsection \<open>The stop command\<close>

text \<open>
  C7, as the code has it. In any state the client can reach, along any sequence of key
  events: while the socket is open, the messages sent are exactly the commands of the
  specification, so a stop goes out once at each transition of the held direction keys from
  non-empty to empty and at no other time; while the socket is not open, nothing is sent,
  the stop included.
\<close>

theorem stop_sent_on_release:
  assumes "\<forall>e \<in> set evs. is_key_event e" and "s = run pre (new_GameClient w h)"
  shows "sent (run evs s) = sent s @ (if ws_open s then spec_commands (keysPressed s) evs else [])
       \<and> count_list (sent (run evs s)) Stop
           = count_list (sent s) Stop + (if ws_open s then stop_transitions (keysPressed s) evs else 0)"
proof -
  have "isMoving s = (held (keysPressed s) \<noteq> {})"
    unfolding assms(2) by (rule run_moving_invariant [OF new_GameClient_invariant])
  from run_keys_sent [OF assms(1) this] show ?thesis
    by (simp add: count_spec_commands)
qed

theorem stop_sent_on_release_witness:
  "list_all is_key_event press_and_release
   \<and> ws_open (run [WsOpen] (new_GameClient 800 600))
   \<and> sent (run press_and_release (run [WsOpen] (new_GameClient 800 600)))
        = [JoinGameReq ''Tim'', Move ''up'', Move ''up'', Move ''left'', Move ''left'', Stop]
   \<and> count_list (sent (run press_and_release (run [WsOpen] (new_GameClient 800 600)))) Stop = 1"
proof -
  have k: "\<forall>e \<in> set press_and_release. is_key_event e"
    by (simp add: press_and_release_def)
  have o: "ws_open (run [WsOpen] (new_GameClient 800 600))"
    "sent (run [WsOpen] (new_GameClient 800 600)) = [JoinGameReq ''Tim'']"
    "keysPressed (run [WsOpen] (new_GameClient 800 600)) = {}"
    by (simp_all add: run_def ws_onopen_def joinGame_def sendMessage_def new_GameClient_def)
  have c: "spec_commands {} press_and_release
             = [Move ''up'', Move ''up'', Move ''left'', Move ''left'', Stop]"
    by (simp add: press_and_release_def held_empty_iff first_direction_def)
  have t: "stop_transitions {} press_and_release = 1"
    by (simp add: press_and_release_def held_empty_iff)
  from stop_sent_on_release [OF k refl, of "[WsOpen]" 800 600]
  have "sent (run press_and_release (run [WsOpen] (new_GameClient 800 600)))
          = [JoinGameReq ''Tim''] @ [Move ''up'', Move ''up'', Move ''left'', Move ''left'', Stop]"
    and "count_list (sent (run press_and_release (run [WsOpen] (new_GameClient 800 600)))) Stop
          = 0 + 1"
    by (simp_all add: o c t)
  with k o(1) show ?thesis by (simp add: list_all_iff)
qed

text \<open>
  C7 as stated fails before the socket opens: pressing and releasing an arrow key is a
  transition from held to none held, and no stop is sent.
\<close>

theorem stop_dropped_counterexample:
  "stop_transitions (keysPressed (new_GameClient 800 600)) [KeyDown ''ArrowUp'', KeyUp ''ArrowUp''] = 1
   \<and> sent (run [KeyDown ''ArrowUp'', KeyUp ''ArrowUp''] (new_GameClient 800 600)) = []"
  by (simp add: run_def handleKeyDown_def handleKeyUp_def sendMovementCommand_def sendMessage_def
        new_GameClient_def held_empty_iff)

subsection \<open>Removal of a player\<close>

lemma player_left_removal:
  "(map_of (players s) i = None \<longrightarrow> handleServerMessage (PlayerLeft i) s = draw s)
   \<and> state_after (draw s) = s\<lparr> canvas_ops := canvas_ops (state_after (draw s)) \<rparr>
   \<and> map_of (players (state_after (handleServerMessage (PlayerLeft i) s))) i = None
   \<and> (k \<noteq> i \<longrightarrow>
        map_of (players (state_after (handleServerMessage (PlayerLeft i) s))) k
          = map_of (players s) k)
   \<and> myPlayerId (state_after (handleServerMessage (PlayerLeft i) s)) = myPlayerId s
   \<and> avatars (state_after (handleServerMessage (PlayerLeft i) s)) = avatars s"
proof -
  have "map_of (players s) i = None \<Longrightarrow> AList.delete i (players s) = players s"
    by (simp add: map_of_eq_None_iff)
  moreover have "state_after (draw s) = s\<lparr> canvas_ops := canvas_ops (state_after (draw s)) \<rparr>"
    by (simp add: draw_def split: option.splits prod.splits)
  ultimately show ?thesis by (simp add: delete_conv')
qed

lemma drawPlayer_no_throw:
  assumes "avatar p \<notin> object_prototype_names"
  shows "\<exists>ops. drawPlayer s p = Inr ops"
proof (cases "loadedAvatars s (avatar p)")
  case None
  with assms have "\<not> has_property (loadedAvatars s) (avatar p)"
    by (simp add: has_property_def)
  then show ?thesis by (simp add: drawPlayer_def)
next
  case (Some la)
  then show ?thesis
    by (auto simp: drawPlayer_def Let_def split: option.splits)
qed

lemma drawPlayers_no_throw:
  "\<forall>p \<in> set ps. avatar p \<notin> object_prototype_names \<Longrightarrow> snd (drawPlayers s ps) = None"
proof (induction ps)
  case Nil
  show ?case by simp
next
  case (Cons p ps)
  then obtain ops where "drawPlayer s p = Inr ops"
    using drawPlayer_no_throw [of p s] by auto
  with Cons show ?case by (auto split: prod.splits)
qed

lemma draw_no_throw:
  assumes "\<forall>p \<in> snd ` set (players s). avatar p \<notin> object_prototype_names"
  shows "thrown (draw s) = None"
proof -
  from assms have "snd (drawPlayers s (map snd (players s))) = None"
    by (intro drawPlayers_no_throw) simp
  then show ?thesis by (auto simp: draw_def split: option.splits prod.splits)
qed

lemma player_left_no_throw:
  assumes "\<forall>p \<in> snd ` set (players s). avatar p \<notin> object_prototype_names"
  shows "thrown (handleServerMessage (PlayerLeft i) s) = None"
proof -
  have "set (AList.delete i (players s)) \<subseteq> set (players s)"
    by (auto simp: AList.delete_eq)
  with assms show ?thesis
    by (fastforce intro!: draw_no_throw)
qed

text \<open>
  C8. What the handler of \<open>player_left\<close> does to the state is a removal that tolerates
  an unknown id (\<open>player_left_removal\<close>: for an id that is not in \<open>players\<close> it is a
  redraw, which changes nothing but the output on the canvas; otherwise the entry of the id
  is gone and every other entry, the local identity and the avatars are as before), and it
  does not raise while no player wears an avatar named like a member of
  \<open>Object.prototype\<close> (\<open>player_left_no_throw\<close>). But it can raise: it ends in
  \<open>this.draw()\<close>, and on a client that shows the world map and holds a player who faces
  west and wears an avatar named \<open>constructor\<close>, a \<open>player_left\<close> for an id that is not
  in \<open>players\<close> ends in a \<open>TypeError\<close>, the players unchanged.
\<close>

theorem player_left_raises:
  "map_of (players client_met_constructor) ''ghost'' = None
   \<and> thrown (handleServerMessage (PlayerLeft ''ghost'') client_met_constructor) = Some TypeError
   \<and> players (state_after (handleServerMessage (PlayerLeft ''ghost'') client_met_constructor))
        = players client_met_constructor"
  by (simp add: client_met_constructor_def run_def new_GameClient_def draw_def
        loadAvatarImages_def loadAvatarImages_one_def has_property_def
        object_prototype_names_def drawPlayer_def
        avatar_constructor_def player_p4_def)

subsection \<open>The local identity\<close>

text \<open>
  C9, as the code has it. No event changes \<open>myPlayerId\<close> except a successful join result,
  which stores the \<open>playerId\<close> of the message as it is; so along every run in which each
  successful join result carries a \<open>playerId\<close>, an identity that is set stays set.
\<close>

theorem myPlayerId_never_cleared:
  "myPlayerId (step e s) =
     (case e of
        WsMessage (Some (JoinGameOk playerId ps avs)) \<Rightarrow> playerId
      | _ \<Rightarrow> myPlayerId s)
   \<and> (list_all carries_playerId evs \<and> myPlayerId s \<noteq> None \<longrightarrow>
        myPlayerId (run evs s) \<noteq> None)"
  using step_myPlayerId [of e s] run_myPlayerId [of evs s] by simp

theorem myPlayerId_never_cleared_witness:
  "list_all carries_playerId
     [WsMessage (Some (PlayerLeft ''p1'')), WsMessage (Some (JoinGameFailed ''full'')),
      WsClose, WsMessage (Some (UnknownAction ''ping'')),
      WsMessage (Some (PlayersMoved [])), WsMessage None,
      WsMessage (Some (JoinGameOk (Some ''p9'') [] []))]
   \<and> myPlayerId client_joined \<noteq> None
   \<and> myPlayerId (step (WsMessage (Some (PlayerLeft ''p1''))) client_joined) = Some ''p1''
   \<and> myPlayerId (run [WsMessage (Some (PlayerLeft ''p1'')), WsMessage (Some (JoinGameFailed ''full'')),
                       WsClose, WsMessage (Some (UnknownAction ''ping'')),
                       WsMessage (Some (PlayersMoved [])), WsMessage None,
                       WsMessage (Some (JoinGameOk (Some ''p9'') [] []))]
                 client_joined) \<noteq> None"
proof -
  have p: "myPlayerId client_joined = Some ''p1''"
    by (simp add: client_joined_def client_800x600_def)
  have l: "list_all carries_playerId
     [WsMessage (Some (PlayerLeft ''p1'')), WsMessage (Some (JoinGameFailed ''full'')),
      WsClose, WsMessage (Some (UnknownAction ''ping'')),
      WsMessage (Some (PlayersMoved [])), WsMessage None,
      WsMessage (Some (JoinGameOk (Some ''p9'') [] []))]"
    by simp
  note t = myPlayerId_never_cleared [of "WsMessage (Some (PlayerLeft ''p1''))" client_joined
         "[WsMessage (Some (PlayerLeft ''p1'')), WsMessage (Some (JoinGameFailed ''full'')),
           WsClose, WsMessage (Some (UnknownAction ''ping'')),
           WsMessage (Some (PlayersMoved [])), WsMessage None,
           WsMessage (Some (JoinGameOk (Some ''p9'') [] []))]"]
  have p': "myPlayerId client_joined \<noteq> None" by (simp add: p)
  from t have a: "myPlayerId (step (WsMessage (Some (PlayerLeft ''p1''))) client_joined)
                    = myPlayerId client_joined"
    by simp
  from t l p' have b: "myPlayerId (run [WsMessage (Some (PlayerLeft ''p1'')),
                       WsMessage (Some (JoinGameFailed ''full'')),
                       WsClose, WsMessage (Some (UnknownAction ''ping'')),
                       WsMessage (Some (PlayersMoved [])), WsMessage None,
                       WsMessage (Some (JoinGameOk (Some ''p9'') [] []))]
                 client_joined) \<noteq> None"
    by blast
  from l p' a [unfolded p] b show ?thesis by blast
qed

text \<open>
  C9 as stated fails at a successful join result that has no \<open>playerId\<close>: the handler
  stores what the message has, and the identity that was set is cleared.
\<close>

theorem myPlayerId_cleared_counterexample:
  "myPlayerId client_joined = Some ''p1''
   \<and> myPlayerId (step (WsMessage (Some (JoinGameOk None [] []))) client_joined) = None"
  by (simp add: client_joined_def client_800x600_def)

subsection \<open>A redefined avatar keeps its cached frames\<close>

text \<open>
  C10. For a name that has a cache entry, no inbound message replaces the entry or starts a
  load for the name, although a \<open>player_joined\<close> stores the new definition under its name
  and a successful join replaces the whole \<open>avatars\<close> map; after a \<open>player_joined\<close>
  that redefines a known avatar, a player wearing it is drawn exactly as before.
\<close>

theorem avatar_redefined_keeps_cache:
  assumes "loadedAvatars s nm = Some la"
  shows "loadedAvatars (state_after (handleServerMessage m s)) nm = Some la
       \<and> filter (\<lambda>l. fst l = nm) (loads (state_after (handleServerMessage m s)))
           = filter (\<lambda>l. fst l = nm) (loads s)
       \<and> map_of (avatars (state_after (handleServerMessage (PlayerJoined p a) s))) (avatar_name a) = Some a
       \<and> avatars (state_after (handleServerMessage (JoinGameOk i ps avs) s)) = avs
       \<and> (avatar_name a = nm \<and> avatar q = nm \<and> map_of (avatars s) nm \<noteq> None \<longrightarrow>
            drawPlayer (state_after (handleServerMessage (PlayerJoined p a) s)) q = drawPlayer s q)"
proof -
  have d: "drawPlayer (state_after (handleServerMessage (PlayerJoined p a) s)) q = drawPlayer s q"
    if "avatar_name a = nm" "avatar q = nm" "map_of (avatars s) nm \<noteq> None"
  proof (rule drawPlayer_cong)
    show "(map_of (avatars (state_after (handleServerMessage (PlayerJoined p a) s))) (avatar q) = None)
            = (map_of (avatars s) (avatar q) = None)"
      using that by (simp add: update_conv')
    show "loadedAvatars (state_after (handleServerMessage (PlayerJoined p a) s)) (avatar q)
            = loadedAvatars s (avatar q)"
      using that(2) assms handleServerMessage_keeps(1) [OF assms, of "PlayerJoined p a"]
      by (simp del: handleServerMessage.simps)
  qed simp_all
  show ?thesis
    using handleServerMessage_keeps [OF assms] d by (simp add: update_conv')
qed

theorem avatar_redefined_keeps_cache_witness:
  "loadedAvatars client_joined ''knight'' =
     Some \<lparr> north = [], south = [Some (Image ''s0'')], east = [None, Some (Image ''e1'')] \<rparr>
   \<and> frames avatar_knight_v2 East \<noteq> frames avatar_knight East
   \<and> loadedAvatars (state_after (handleServerMessage (PlayerJoined player_p3 avatar_knight_v2) client_joined))
        ''knight'' =
     Some \<lparr> north = [], south = [Some (Image ''s0'')], east = [None, Some (Image ''e1'')] \<rparr>
   \<and> filter (\<lambda>l. fst l = ''knight'')
        (loads (state_after (handleServerMessage (PlayerJoined player_p3 avatar_knight_v2) client_joined))) = []
   \<and> map_of (avatars (state_after (handleServerMessage (PlayerJoined player_p3 avatar_knight_v2) client_joined)))
        ''knight'' = Some avatar_knight_v2
   \<and> drawPlayer (state_after (handleServerMessage (PlayerJoined player_p3 avatar_knight_v2) client_joined))
        player_p1 = drawPlayer client_joined player_p1"
proof -
  have h: "loadedAvatars client_joined ''knight'' =
     Some \<lparr> north = [], south = [Some (Image ''s0'')], east = [None, Some (Image ''e1'')] \<rparr>"
    by (rule client_joined_view)
  have n: "avatar_name avatar_knight_v2 = ''knight''" "avatar player_p1 = ''knight''"
    "map_of (avatars client_joined) ''knight'' \<noteq> None"
    "frames avatar_knight_v2 East \<noteq> frames avatar_knight East"
    by (simp_all add: avatar_knight_v2_def avatar_knight_def player_p1_def client_joined_view)
  have l: "filter (\<lambda>l. fst l = ''knight'') (loads client_joined) = []"
    by (simp add: client_joined_def client_800x600_def new_GameClient_def)
  note t = avatar_redefined_keeps_cache [OF h,
      where m = "PlayerJoined player_p3 avatar_knight_v2" and p = player_p3
        and a = avatar_knight_v2 and q = player_p1]
  from t have a: "loadedAvatars
        (state_after (handleServerMessage (PlayerJoined player_p3 avatar_knight_v2) client_joined)) ''knight'' =
     Some \<lparr> north = [], south = [Some (Image ''s0'')], east = [None, Some (Image ''e1'')] \<rparr>"
    by blast
  from t have b: "filter (\<lambda>l. fst l = ''knight'')
        (loads (state_after (handleServerMessage (PlayerJoined player_p3 avatar_knight_v2) client_joined)))
      = filter (\<lambda>l. fst l = ''knight'') (loads client_joined)"
    by blast
  from t have c: "map_of
        (avatars (state_after (handleServerMessage (PlayerJoined player_p3 avatar_knight_v2) client_joined)))
        (avatar_name avatar_knight_v2) = Some avatar_knight_v2"
    by blast
  from t n(1,2,3) have d: "drawPlayer
        (state_after (handleServerMessage (PlayerJoined player_p3 avatar_knight_v2) client_joined)) player_p1
      = drawPlayer client_joined player_p1"
    by blast
  from h n(4) a b [unfolded l] c [unfolded n(1)] d show ?thesis by blast
qed

end
